theory Spec2Isabelle
  imports Complex_Main
begin

section \<open>Strings and numbers of the page script\<close>

text \<open>
  The script under study is \<^verbatim>\<open>static/script.js\<close>, the browser front end of the
  research paper explorer: the search with its two result regions, and the autocomplete
  over paper titles with its debounce timer, its requests, its dropdown and its keyboard
  handling. The sidebar of categories, the year selector and the popular papers panel
  share no state with these but the current category, and are left out.

  A JavaScript string is modelled as a \<^typ>\<open>string\<close>, one \<^typ>\<open>char\<close> for each UTF-16
  code unit below \<open>0x100\<close>, so that \<^const>\<open>length\<close> is the script's \<^verbatim>\<open>.length\<close>. The
  three glyphs above that range occur only as constants of the card templates, and the
  replacement character only where the parser writes it; they are written as their
  UTF-8 bytes. A property that may be absent from a JSON object is an
  \<open>option\<close>, \<^const>\<open>None\<close> standing for \<^verbatim>\<open>undefined\<close>; the objects of a response have
  the types of the API (strings, counts, lists of objects).
\<close>

definition truthy :: "string option \<Rightarrow> bool" where
  \<comment> \<open>JavaScript truthiness of a string-valued property: present and not empty.\<close>
  "truthy v = (case v of None \<Rightarrow> False | Some t \<Rightarrow> t \<noteq> [])"

definition or_else :: "string option \<Rightarrow> string \<Rightarrow> string" where
  \<comment> \<open>\<^verbatim>\<open>v || d\<close> for a string-valued property \<open>v\<close>.\<close>
  "or_else v d = (case v of None \<Rightarrow> d | Some t \<Rightarrow> if t = [] then d else t)"

definition or_zero :: "nat option \<Rightarrow> nat" where
  \<comment> \<open>\<^verbatim>\<open>v || 0\<close> for a count.\<close>
  "or_zero v = (case v of None \<Rightarrow> 0 | Some n \<Rightarrow> n)"

definition text_of :: "string option \<Rightarrow> string" where
  \<comment> \<open>Assigning \<^verbatim>\<open>undefined\<close> to \<^verbatim>\<open>textContent\<close> stores the empty string.\<close>
  "text_of v = (case v of None \<Rightarrow> [] | Some t \<Rightarrow> t)"

definition join_lines :: "string list \<Rightarrow> string" where
  \<comment> \<open>The lines of a template literal, a line feed between two lines.\<close>
  "join_lines ls = concat (case ls of [] \<Rightarrow> [] | l # rest \<Rightarrow> l # map (\<lambda>x. CHR 0x0A # x) rest)"

fun nat_digits :: "nat \<Rightarrow> string" where
  "nat_digits n =
     (if n < 10 then [''0123456789'' ! n]
      else nat_digits (n div 10) @ [''0123456789'' ! (n mod 10)])"

declare nat_digits.simps [simp del]

subsection \<open>escapeHtml\<close>

text \<open>
  \<^verbatim>\<open>escapeHtml\<close> stores its argument as the text content of a fresh \<^verbatim>\<open>div\<close> and reads
  the element's \<^verbatim>\<open>innerHTML\<close> back. What comes back is the serialisation of one text
  node, which the HTML standard defines (escaping a string, outside attribute mode):
  the ampersand, the no-break space, and the two angle brackets are replaced by
  character references, and every other code unit is kept. Quotation marks are kept.
\<close>

fun escapeHtml :: "string \<Rightarrow> string" where
  "escapeHtml [] = []"
| "escapeHtml (c # cs) =
     (if c = CHR ''&'' then ''&amp;''
      else if c = CHR 0xA0 then ''&nbsp;''
      else if c = CHR ''<'' then ''&lt;''
      else if c = CHR ''>'' then ''&gt;''
      else [c]) @ escapeHtml cs"

subsection \<open>formatNumber\<close>

text \<open>
  A count is a non-negative integer held in a JavaScript number, an IEEE 754 double.
  The quotient \<^verbatim>\<open>num / 1_000\<close> is the double nearest to the exact quotient (ties to the
  even significand), and \<^verbatim>\<open>toFixed(1)\<close> prints the integer \<open>d\<close> for which \<open>d / 10\<close>
  is nearest to that double, the larger one of two, with a point before its last digit.
  Both are computed here on exact rationals.
\<close>

definition round_half_even :: "rat \<Rightarrow> int" where
  "round_half_even q =
     (let f = \<lfloor>q\<rfloor>; r = q - of_int f
      in if r < 1 / 2 then f else if 1 / 2 < r then f + 1
         else if even f then f else f + 1)"

fun bit_length :: "nat \<Rightarrow> nat" where
  \<comment> \<open>The number of binary digits of \<open>n\<close>.\<close>
  "bit_length n = (if n = 0 then 0 else Suc (bit_length (n div 2)))"

declare bit_length.simps [simp del]

definition double_div :: "nat \<Rightarrow> nat \<Rightarrow> rat" where
  \<comment> \<open>The double \<^verbatim>\<open>n / m\<close> for integers \<open>n \<ge> m > 0\<close> that are doubles themselves:
      \<open>e\<close> is the binary exponent of the quotient, and the significand has 53 bits.\<close>
  "double_div n m =
     (let q = of_nat n / of_nat m;
          e = bit_length (n div m) - 1
      in if e \<le> 52 then of_int (round_half_even (q * 2 ^ (52 - e))) / 2 ^ (52 - e)
         else of_int (round_half_even (q / 2 ^ (e - 52))) * 2 ^ (e - 52))"

definition toFixed1 :: "rat \<Rightarrow> string" where
  \<comment> \<open>\<^verbatim>\<open>x.toFixed(1)\<close> for \<open>0 \<le> x < 10\<^sup>2\<^sup>1\<close>.\<close>
  "toFixed1 x =
     (let d = nat \<lfloor>10 * x + 1 / 2\<rfloor>
      in nat_digits (d div 10) @ ''.'' @ nat_digits (d mod 10))"

definition formatNumber :: "nat \<Rightarrow> string" where
  "formatNumber num =
     (if num \<ge> 1000000 then toFixed1 (double_div num 1000000) @ ''M''
      else if num \<ge> 1000 then toFixed1 (double_div num 1000) @ ''K''
      else nat_digits num)"

section \<open>The page: data, state and display\<close>

record video =
  video_url :: "string option"
  video_thumbnail :: "string option"
  video_title :: "string option"
  video_channel :: "string option"
  video_views :: "string option"
  video_published :: "string option"

record repo =
  repo_url :: "string option"
  repo_name :: "string option"
  repo_stars :: "nat option"
  repo_forks :: "nat option"
  repo_author :: "string option"
  repo_language :: "string option"
  repo_description :: "string option"

record suggestion =
  suggestion_title :: "string option"
  suggestion_year :: "nat option"
  suggestion_category :: "string option"

text \<open>
  An element of class \<^verbatim>\<open>autocomplete-item\<close>, as the browser builds it from the markup
  assigned to the dropdown: its \<^verbatim>\<open>data-paper\<close> attribute and whether it carries the
  class \<^verbatim>\<open>selected\<close>. Its \<^verbatim>\<open>data-index\<close> is its position.
\<close>

record item =
  data_paper :: string
  selected :: bool

datatype request =
  SearchRequest string "string option"
| SuggestionRequest string

datatype level = Error | Warn

text \<open>
  The state is the script's module-level variables, the parts of the document it writes,
  and what it hands to the browser: the pending timers (handle, due time, captured
  query), the requests sent, and the warnings and errors written to the console.
  \<^verbatim>\<open>setTimeout\<close> returns positive handles, so a stored handle is always truthy. For a
  region and for the dropdown the state holds the markup last assigned to
  \<^verbatim>\<open>innerHTML\<close>; for the dropdown it also holds the items built from that markup,
  whose class \<^verbatim>\<open>selected\<close> the script toggles afterwards.
\<close>

record page =
  currentCategory :: string
  autocompleteSuggestions :: "suggestion list"
  selectedSuggestionIndex :: int
  autocompleteDebounceTimer :: "nat option"
  paperInput_value :: string
  dropdown_visible :: bool
  dropdown_innerHTML :: string
  dropdown_items :: "item list"
  videosContainer :: string
  reposContainer :: string
  clock :: nat
  timer_count :: nat
  timers :: "(nat \<times> nat \<times> string) list"
  fetches :: "request list"
  console :: "(level \<times> string) list"

definition init_page :: page where
  "init_page =
     \<lparr> currentCategory = ''All'', autocompleteSuggestions = [],
       selectedSuggestionIndex = - 1, autocompleteDebounceTimer = None,
       paperInput_value = [], dropdown_visible = False, dropdown_innerHTML = [],
       dropdown_items = [], videosContainer = [], reposContainer = [],
       clock = 0, timer_count = 0, timers = [], fetches = [], console = [] \<rparr>"

subsection \<open>Search results\<close>

definition loadingHtml :: string where
  \<open>loadingHtml = join_lines
     ['''',
      ''    <div class="loading-dots">'',
      ''      <span class="pulse"></span>'',
      ''      <span class="pulse"></span>'',
      ''      <span class="pulse"></span>'',
      ''    </div>'',
      ''  '']\<close>

definition setLoading :: "bool \<Rightarrow> page \<Rightarrow> page" where
  "setLoading isLoading s =
     (if isLoading then s\<lparr>videosContainer := loadingHtml, reposContainer := loadingHtml\<rparr>
      else s)"

definition error_banner :: "string \<Rightarrow> string" where
  \<open>error_banner message = join_lines
     ['''',
      ''    <div class="error-banner">'',
      ''      '' @ escapeHtml message,
      ''    </div>'',
      ''  '']\<close>

definition renderError :: "string \<Rightarrow> page \<Rightarrow> page" where
  "renderError message s =
     s\<lparr>videosContainer := error_banner message, reposContainer := error_banner message\<rparr>"

definition bullet :: string where
  "bullet = [CHR 0xE2, CHR 0x80, CHR 0xA2]"

definition star :: string where
  "star = [CHR 0xE2, CHR 0x98, CHR 0x85]"

definition fork :: string where
  "fork = [CHR 0xE2, CHR 0x91, CHR 0x82]"

definition video_card :: "video \<Rightarrow> string" where
  \<open>video_card v = join_lines
     ['''',
      ''      <a href="'' @ escapeHtml (text_of (video_url v))
        @ ''" target="_blank" rel="noopener noreferrer" class="video-card">'',
      ''        <div class="video-thumbnail">'',
      ''          <img src="'' @ escapeHtml (text_of (video_thumbnail v)) @ ''" alt="''
        @ escapeHtml (text_of (video_title v)) @ ''" loading="lazy" />'',
      ''        </div>'',
      ''        <div class="video-details">'',
      ''          <h3>'' @ escapeHtml (text_of (video_title v)) @ ''</h3>'',
      ''          <p>'' @ escapeHtml (text_of (video_channel v)) @ ''</p>'',
      ''          <p>'' @ escapeHtml (text_of (video_views v)) @ '' '' @ bullet @ '' ''
        @ escapeHtml (text_of (video_published v)) @ ''</p>'',
      ''        </div>'',
      ''      </a>'',
      ''    '']\<close>

definition videos_empty :: string where
  \<open>videos_empty = ''<div class="empty-state">No video explanations found</div>''\<close>

definition renderVideos :: "video list option \<Rightarrow> page \<Rightarrow> page" where
  "renderVideos videos s =
     (case videos of
        None \<Rightarrow> s\<lparr>videosContainer := videos_empty\<rparr>
      | Some vs \<Rightarrow>
          if length vs = 0 then s\<lparr>videosContainer := videos_empty\<rparr>
          else s\<lparr>videosContainer := concat (map video_card vs)\<rparr>)"

definition repo_card :: "repo \<Rightarrow> string" where
  \<open>repo_card r = join_lines
     ['''',
      ''          <a href="'' @ escapeHtml (text_of (repo_url r))
        @ ''" target="_blank" rel="noopener noreferrer" class="repo-card">'',
      ''            <div class="repo-header">'',
      ''              <h3>'' @ escapeHtml (text_of (repo_name r)) @ ''</h3>'',
      ''              <div class="repo-stats">'',
      ''                <div class="repo-stat">'',
      ''                  <span>'' @ star @ ''</span>'',
      ''                  <span>'' @ formatNumber (or_zero (repo_stars r)) @ ''</span>'',
      ''                </div>'',
      ''                <div class="repo-stat">'',
      ''                  <span>'' @ fork @ ''</span>'',
      ''                  <span>'' @ formatNumber (or_zero (repo_forks r)) @ ''</span>'',
      ''                </div>'',
      ''              </div>'',
      ''            </div>'',
      ''            <div class="repo-details">'',
      ''              <p>'' @ escapeHtml (or_else (repo_author r) ''Unknown'') @ '' '' @ bullet
        @ '' '' @ escapeHtml (or_else (repo_language r) ''Various'') @ ''</p>'',
      ''              <p>''
        @ escapeHtml (or_else (repo_description r) ''No description available'') @ ''</p>'',
      ''            </div>'',
      ''          </a>'',
      ''        '']\<close>

definition invalid_repo :: "repo \<Rightarrow> bool" where
  \<comment> \<open>The guard \<^verbatim>\<open>!repo.url || !repo.name\<close>.\<close>
  "invalid_repo r = (\<not> truthy (repo_url r) \<or> \<not> truthy (repo_name r))"

definition repo_html :: "repo \<Rightarrow> string" where
  \<comment> \<open>The function mapped over the repos: the empty string for an entry it rejects.\<close>
  "repo_html r = (if invalid_repo r then [] else repo_card r)"

definition repos_empty :: string where
  \<open>repos_empty = ''<div class="empty-state">No code implementations found</div>''\<close>

definition repos_none_valid :: string where
  \<open>repos_none_valid = ''<div class="empty-state">No valid code implementations found</div>''\<close>

text \<open>
  \<^verbatim>\<open>renderRepos\<close> warns on the console for each entry it rejects. Its \<^verbatim>\<open>catch\<close> branch
  is for entries that are not objects; the repos here are records, so nothing throws.
\<close>

definition renderRepos :: "repo list option \<Rightarrow> page \<Rightarrow> page" where
  "renderRepos repos s =
     (case repos of
        None \<Rightarrow> s\<lparr>reposContainer := repos_empty\<rparr>
      | Some rs \<Rightarrow>
          if length rs = 0 then s\<lparr>reposContainer := repos_empty\<rparr>
          else
            let html = concat (filter (\<lambda>h. h \<noteq> []) (map repo_html rs));
                s' = s\<lparr>console := console s
                       @ map (\<lambda>r. (Warn, ''Invalid repo data:'')) (filter invalid_repo rs)\<rparr>
            in if html = [] then s'\<lparr>reposContainer := repos_none_valid\<rparr>
               else s'\<lparr>reposContainer := html\<rparr>)"

text \<open>
  \<^verbatim>\<open>performSearch\<close> runs up to its \<^verbatim>\<open>await\<close> when it is called, and the rest when
  the request settles: rejected (with the error's message, if it has one), answered with
  a status that is not a success, or answered with the two lists of the JSON body, each
  possibly missing.
\<close>

datatype search_response =
  SearchRejected "string option"
| SearchNotOk
| SearchJson "video list option" "repo list option"

definition performSearch_start :: "string \<Rightarrow> page \<Rightarrow> page" where
  "performSearch_start query s =
     (let s1 = setLoading True s;
          category = (if currentCategory s1 \<noteq> [] \<and> currentCategory s1 \<noteq> ''All''
                      then Some (currentCategory s1) else None)
      in s1\<lparr>fetches := fetches s1 @ [SearchRequest query category]\<rparr>)"

definition or_empty :: "'a list option \<Rightarrow> 'a list option" where
  \<comment> \<open>\<^verbatim>\<open>v || []\<close>\<close>
  "or_empty v = (case v of None \<Rightarrow> Some [] | Some xs \<Rightarrow> Some xs)"

definition fallback_message :: string where
  "fallback_message = ''Something went wrong. Please try again.''"

definition performSearch_finish :: "search_response \<Rightarrow> page \<Rightarrow> page" where
  "performSearch_finish resp s =
     setLoading False
       (case resp of
          SearchRejected message \<Rightarrow> renderError (or_else message fallback_message) s
        | SearchNotOk \<Rightarrow>
            renderError
              (or_else (Some ''Search request failed. Please try again.'') fallback_message) s
        | SearchJson videos repos \<Rightarrow>
            renderRepos (or_empty repos) (renderVideos (or_empty videos) s))"

subsection \<open>Autocomplete\<close>

definition hideAutocomplete :: "page \<Rightarrow> page" where
  "hideAutocomplete s =
     s\<lparr>dropdown_visible := False, dropdown_innerHTML := [], dropdown_items := [],
       autocompleteSuggestions := [], selectedSuggestionIndex := - 1\<rparr>"

definition is_space :: "char \<Rightarrow> bool" where
  \<comment> \<open>The white space and line terminators below \<open>0x100\<close> that \<^verbatim>\<open>trim\<close> strips.\<close>
  "is_space c =
     (c = CHR 0x09 \<or> c = CHR 0x0A \<or> c = CHR 0x0B \<or> c = CHR 0x0C \<or> c = CHR 0x0D
      \<or> c = CHR 0x20 \<or> c = CHR 0xA0)"

definition trim :: "string \<Rightarrow> string" where
  "trim t = rev (dropWhile is_space (rev (dropWhile is_space t)))"

definition clearTimeout :: "nat \<Rightarrow> page \<Rightarrow> page" where
  "clearTimeout h s = s\<lparr>timers := filter (\<lambda>(i, due, q). i \<noteq> h) (timers s)\<rparr>"

definition setTimeout :: "string \<Rightarrow> nat \<Rightarrow> page \<Rightarrow> nat \<times> page" where
  \<comment> \<open>Schedules \<^verbatim>\<open>loadAutocompleteSuggestions(query)\<close> and returns the new handle.\<close>
  "setTimeout query delay s =
     (let h = Suc (timer_count s)
      in (h, s\<lparr>timer_count := h, timers := timers s @ [(h, clock s + delay, query)]\<rparr>))"

definition handleSearchInput :: "string \<Rightarrow> page \<Rightarrow> page" where
  "handleSearchInput val s =
     (let query = trim val;
          s1 = (case autocompleteDebounceTimer s of
                  None \<Rightarrow> s
                | Some h \<Rightarrow> clearTimeout h s)
      in if length query < 2 then hideAutocomplete s1
         else let (h, s2) = setTimeout query 300 s1
              in s2\<lparr>autocompleteDebounceTimer := Some h\<rparr>)"

definition year_text :: "nat option \<Rightarrow> string" where
  \<comment> \<open>\<^verbatim>\<open>suggestion.year || "N/A"\<close> inside the template.\<close>
  "year_text y = (case y of None \<Rightarrow> ''N/A'' | Some n \<Rightarrow> if n = 0 then ''N/A'' else nat_digits n)"

definition suggestion_html :: "nat \<Rightarrow> suggestion \<Rightarrow> string" where
  \<open>suggestion_html index sg = join_lines
     ['''',
      ''      <div class="autocomplete-item" data-index="'' @ nat_digits index
        @ ''" data-paper="'' @ escapeHtml (text_of (suggestion_title sg)) @ ''">'',
      ''        <div class="autocomplete-item-title">''
        @ escapeHtml (text_of (suggestion_title sg)) @ ''</div>'',
      ''        <div class="autocomplete-item-meta">'',
      ''          <span class="autocomplete-item-year">'' @ year_text (suggestion_year sg)
        @ ''</span>'',
      ''          '' @ (if truthy (suggestion_category sg)
                        then ''<span class="autocomplete-item-category">''
                          @ escapeHtml (text_of (suggestion_category sg)) @ ''</span>''
                        else ''''),
      ''        </div>'',
      ''      </div>'',
      ''    '']\<close>

text \<open>
  What the browser reads back as the value of a double-quoted attribute. The parser
  first turns every carriage return into a line feed, a carriage return and line feed
  pair into one; the value is the markup up to the next quotation mark, with its
  character references decoded and with the replacement character \<open>U+FFFD\<close>, written
  as its UTF-8 bytes, in place of each NUL. Only the four references that
  \<^const>\<open>escapeHtml\<close> writes occur in the markup of this script.
\<close>

fun normalize_newlines :: "string \<Rightarrow> string" where
  "normalize_newlines [] = []"
| "normalize_newlines [c] = (if c = CHR 0x0D then [CHR 0x0A] else [c])"
| "normalize_newlines (c # d # cs) =
     (if c = CHR 0x0D \<and> d = CHR 0x0A then CHR 0x0A # normalize_newlines cs
      else if c = CHR 0x0D then CHR 0x0A # normalize_newlines (d # cs)
      else c # normalize_newlines (d # cs))"

fun decode_refs :: "string \<Rightarrow> string" where
  "decode_refs [] = []"
| "decode_refs (c # cs) =
     (if c = CHR ''&'' \<and> take 4 cs = ''amp;'' then CHR ''&'' # decode_refs (drop 4 cs)
      else if c = CHR ''&'' \<and> take 5 cs = ''nbsp;'' then CHR 0xA0 # decode_refs (drop 5 cs)
      else if c = CHR ''&'' \<and> take 3 cs = ''lt;'' then CHR ''<'' # decode_refs (drop 3 cs)
      else if c = CHR ''&'' \<and> take 3 cs = ''gt;'' then CHR ''>'' # decode_refs (drop 3 cs)
      else c # decode_refs cs)"

definition replace_nul :: "string \<Rightarrow> string" where
  "replace_nul t =
     concat (map (\<lambda>c. if c = CHR 0x00 then [CHR 0xEF, CHR 0xBF, CHR 0xBD] else [c]) t)"

definition attribute_value :: "string \<Rightarrow> string" where
  "attribute_value markup =
     replace_nul (decode_refs (takeWhile (\<lambda>c. c \<noteq> CHR 0x22) (normalize_newlines markup)))"

definition suggestion_item :: "suggestion \<Rightarrow> item" where
  "suggestion_item sg =
     \<lparr>data_paper = attribute_value (escapeHtml (text_of (suggestion_title sg))),
      selected = False\<rparr>"

definition renderAutocompleteSuggestions :: "page \<Rightarrow> page" where
  "renderAutocompleteSuggestions s =
     (if length (autocompleteSuggestions s) = 0 then hideAutocomplete s
      else
        let html = concat (map (\<lambda>(index, sg). suggestion_html index sg)
                     (enumerate 0 (autocompleteSuggestions s)))
        in s\<lparr>selectedSuggestionIndex := - 1, dropdown_innerHTML := html,
             dropdown_items := map suggestion_item (autocompleteSuggestions s),
             dropdown_visible := True\<rparr>)"

text \<open>
  \<^verbatim>\<open>loadAutocompleteSuggestions\<close> sends its request when the timer calls it and goes on
  when the request settles: rejected (the fetch, or the reading of the body), answered
  with a status that is not a success, or answered with the JSON body's list, possibly
  missing. No other statement of it touches the state between the two, and the part
  that goes on still has \<^verbatim>\<open>query\<close> in scope but does not read it.
\<close>

datatype suggestion_response =
  Rejected
| NotOk
| Json "suggestion list option"

definition loadAutocompleteSuggestions_start :: "string \<Rightarrow> page \<Rightarrow> page" where
  "loadAutocompleteSuggestions_start query s =
     s\<lparr>fetches := fetches s @ [SuggestionRequest query]\<rparr>"

definition loadAutocompleteSuggestions_finish ::
  "string \<Rightarrow> suggestion_response \<Rightarrow> page \<Rightarrow> page" where
  "loadAutocompleteSuggestions_finish query resp s =
     (case resp of
        NotOk \<Rightarrow> s
      | Json suggestions \<Rightarrow>
          renderAutocompleteSuggestions
            (s\<lparr>autocompleteSuggestions := (case suggestions of None \<Rightarrow> [] | Some l \<Rightarrow> l)\<rparr>)
      | Rejected \<Rightarrow>
          hideAutocomplete
            (s\<lparr>console := console s @ [(Error, ''Error loading autocomplete suggestions:'')]\<rparr>))"

definition updateSelectedSuggestion :: "page \<Rightarrow> page" where
  \<comment> \<open>Toggles the class \<^verbatim>\<open>selected\<close> on every item; scrolling leaves the state alone.\<close>
  "updateSelectedSuggestion s =
     s\<lparr>dropdown_items :=
         map (\<lambda>(index, it). it\<lparr>selected := (int index = selectedSuggestionIndex s)\<rparr>)
           (enumerate 0 (dropdown_items s))\<rparr>"

datatype key = ArrowDown | ArrowUp | Enter | Escape | OtherKey

definition handleAutocompleteKeyboard :: "key \<Rightarrow> page \<Rightarrow> page" where
  "handleAutocompleteKeyboard k s =
     (if \<not> dropdown_visible s then s
      else
        let items = dropdown_items s
        in if length items = 0 then s
           else case k of
               ArrowDown \<Rightarrow>
                 updateSelectedSuggestion
                   (s\<lparr>selectedSuggestionIndex :=
                        min (selectedSuggestionIndex s + 1) (int (length items) - 1)\<rparr>)
             | ArrowUp \<Rightarrow>
                 updateSelectedSuggestion
                   (s\<lparr>selectedSuggestionIndex := max (selectedSuggestionIndex s - 1) (- 1)\<rparr>)
             | Enter \<Rightarrow>
                 if selectedSuggestionIndex s \<ge> 0
                    \<and> selectedSuggestionIndex s < int (length items)
                 then
                   let paperTitle = data_paper (items ! nat (selectedSuggestionIndex s))
                   in performSearch_start paperTitle
                        (hideAutocomplete (s\<lparr>paperInput_value := paperTitle\<rparr>))
                 else s
             | Escape \<Rightarrow> hideAutocomplete s
             | OtherKey \<Rightarrow> s)"

text \<open>The listeners that \<^verbatim>\<open>renderAutocompleteSuggestions\<close> and \<^verbatim>\<open>setupEventListeners\<close> install.\<close>

definition item_mouseenter :: "nat \<Rightarrow> page \<Rightarrow> page" where
  "item_mouseenter i s =
     (if i < length (dropdown_items s)
      then s\<lparr>dropdown_items :=
               map (\<lambda>(index, it). it\<lparr>selected := (index = i)\<rparr>) (enumerate 0 (dropdown_items s)),
             selectedSuggestionIndex := int i\<rparr>
      else s)"

definition item_click :: "nat \<Rightarrow> page \<Rightarrow> page" where
  "item_click i s =
     (if i < length (dropdown_items s)
      then let paperTitle = data_paper (dropdown_items s ! i)
           in performSearch_start paperTitle (hideAutocomplete (s\<lparr>paperInput_value := paperTitle\<rparr>))
      else s)"

definition click_outside :: "page \<Rightarrow> page" where
  "click_outside s = hideAutocomplete s"

definition submit :: "page \<Rightarrow> page" where
  "submit s =
     (let query = trim (paperInput_value s)
      in if query = [] then s else performSearch_start query (hideAutocomplete s))"

subsection \<open>Events\<close>

text \<open>
  The browser runs one task at a time. Time passing is an event of its own: the clock
  moves on, and every pending timer that has come due runs its callback, in the order
  the timers were set. A timer never runs before it is due.
\<close>

definition elapse :: "nat \<Rightarrow> page \<Rightarrow> page" where
  "elapse d s =
     (let now = clock s + d;
          due = filter (\<lambda>(h, t, q). t \<le> now) (timers s);
          s1 = s\<lparr>clock := now, timers := filter (\<lambda>(h, t, q). \<not> t \<le> now) (timers s)\<rparr>
      in fold (\<lambda>(h, t, q). loadAutocompleteSuggestions_start q) due s1)"

text \<open>
  A suggestion response names the query of the request it answers; a search response
  answers the search that is under way.
\<close>

datatype event =
  Elapse nat
| Input string
| SuggestionResponse string suggestion_response
| SearchResponse search_response
| KeyDown key
| MouseEnter nat
| ItemClick nat
| ClickOutside
| Submit

fun step :: "event \<Rightarrow> page \<Rightarrow> page" where
  "step (Elapse d) s = elapse d s"
| "step (Input val) s = handleSearchInput val (s\<lparr>paperInput_value := val\<rparr>)"
| "step (SuggestionResponse query r) s = loadAutocompleteSuggestions_finish query r s"
| "step (SearchResponse r) s = performSearch_finish r s"
| "step (KeyDown k) s = handleAutocompleteKeyboard k s"
| "step (MouseEnter i) s = item_mouseenter i s"
| "step (ItemClick i) s = item_click i s"
| "step ClickOutside s = click_outside s"
| "step Submit s = submit s"

definition run :: "event list \<Rightarrow> page \<Rightarrow> page" where
  "run es s = fold step es s"

section \<open>Invariants, traces and sample data\<close>

text \<open>
  The predicates and the concrete pages, entries and event lists that the statements
  below are about.
\<close>

text \<open>
  The invariant of the autocomplete state: a dropdown that is not visible goes with an
  empty suggestion list and no selection.
\<close>

definition idle_when_hidden :: "page \<Rightarrow> bool" where
  "idle_when_hidden s =
     (if dropdown_visible s then True
      else autocompleteSuggestions s = [] \<and> selectedSuggestionIndex s = - 1)"

text \<open>
  The stronger invariant that every event keeps: the dropdown is visible exactly when
  there are suggestions, it has one item for each of them, a hidden dropdown has no
  content, and the selection is \<open>-1\<close> or the index of an item.
\<close>

definition dropdown_consistent :: "page \<Rightarrow> bool" where
  "dropdown_consistent s =
     ((if dropdown_visible s then autocompleteSuggestions s \<noteq> []
       else autocompleteSuggestions s = [] \<and> dropdown_innerHTML s = [])
      \<and> length (dropdown_items s) = length (autocompleteSuggestions s)
      \<and> - 1 \<le> selectedSuggestionIndex s
      \<and> selectedSuggestionIndex s < int (length (autocompleteSuggestions s)))"

definition paper :: "string \<Rightarrow> suggestion" where
  \<comment> \<open>A suggestion that has a title only.\<close>
  "paper t = \<lparr>suggestion_title = Some t, suggestion_year = None, suggestion_category = None\<rparr>"

definition three_shown :: page where
  \<comment> \<open>The page after a response with three suggestions.\<close>
  "three_shown =
     loadAutocompleteSuggestions_finish ''abc''
       (Json (Some [paper ''abc one'', paper ''abc two'', paper ''abc three''])) init_page"

definition repo_A :: repo where
  "repo_A = \<lparr>repo_url = Some ''a'', repo_name = Some ''A'', repo_stars = None,
     repo_forks = None, repo_author = None, repo_language = None, repo_description = None\<rparr>"

definition repo_B :: repo where
  \<comment> \<open>An entry that has a name and no url.\<close>
  "repo_B = \<lparr>repo_url = None, repo_name = Some ''B'', repo_stars = None,
     repo_forks = None, repo_author = None, repo_language = None, repo_description = None\<rparr>"


definition timers_owned :: "page \<Rightarrow> bool" where
  \<comment> \<open>Every pending timer is the one whose handle the script has stored.\<close>
  "timers_owned s = list_all (\<lambda>(h, due, q). autocompleteDebounceTimer s = Some h) (timers s)"

definition keystrokes :: "string \<Rightarrow> (nat \<times> string) list \<Rightarrow> event list" where
  \<comment> \<open>An input event, and then further ones, each after the given number of milliseconds.\<close>
  "keystrokes v rest = Input v # concat (map (\<lambda>(d, w). [Elapse d, Input w]) rest)"

definition armed :: "string \<Rightarrow> page \<Rightarrow> bool" where
  \<comment> \<open>Right after an input event with value \<open>v\<close>: its timer alone is pending, if it
      qualified, and no timer otherwise.\<close>
  "armed v s =
     (timers_owned s
      \<and> map (\<lambda>(h, due, q). (due, q)) (timers s)
          = (if length (trim v) < 2 then [] else [(clock s + 300, trim v)]))"

definition two_requests :: "event list" where
  \<comment> \<open>A request for \<open>abc\<close> is sent; then a new input arms a request for \<open>abcd\<close>,
      which is sent in its turn.\<close>
  "two_requests = [Input ''abc'', Elapse 300, Input ''abcd'', Elapse 300]"

definition shown_then_http_error :: "event list" where
  \<comment> \<open>Suggestions for \<open>abc\<close> are shown; the request for \<open>abcd\<close> is answered with a
      status that is not a success.\<close>
  "shown_then_http_error =
     [Input ''abc'', Elapse 300, SuggestionResponse ''abc'' (Json (Some [paper ''abc paper''])),
      Input ''abcd'', Elapse 300, SuggestionResponse ''abcd'' NotOk]"



section \<open>What the operations leave alone\<close>

lemma hideAutocomplete_fields [simp]:
  "dropdown_visible (hideAutocomplete s) = False"
  "dropdown_innerHTML (hideAutocomplete s) = []"
  "dropdown_items (hideAutocomplete s) = []"
  "autocompleteSuggestions (hideAutocomplete s) = []"
  "selectedSuggestionIndex (hideAutocomplete s) = - 1"
  "timers (hideAutocomplete s) = timers s"
  "fetches (hideAutocomplete s) = fetches s"
  "clock (hideAutocomplete s) = clock s"
  "autocompleteDebounceTimer (hideAutocomplete s) = autocompleteDebounceTimer s"
  "videosContainer (hideAutocomplete s) = videosContainer s"
  "reposContainer (hideAutocomplete s) = reposContainer s"
  "console (hideAutocomplete s) = console s"
  by (simp_all add: hideAutocomplete_def)

lemma performSearch_start_fields [simp]:
  "dropdown_visible (performSearch_start q s) = dropdown_visible s"
  "dropdown_innerHTML (performSearch_start q s) = dropdown_innerHTML s"
  "dropdown_items (performSearch_start q s) = dropdown_items s"
  "autocompleteSuggestions (performSearch_start q s) = autocompleteSuggestions s"
  "selectedSuggestionIndex (performSearch_start q s) = selectedSuggestionIndex s"
  "timers (performSearch_start q s) = timers s"
  "clock (performSearch_start q s) = clock s"
  "autocompleteDebounceTimer (performSearch_start q s) = autocompleteDebounceTimer s"
  by (simp_all add: performSearch_start_def setLoading_def Let_def)

lemma updateSelectedSuggestion_fields [simp]:
  "dropdown_visible (updateSelectedSuggestion s) = dropdown_visible s"
  "dropdown_innerHTML (updateSelectedSuggestion s) = dropdown_innerHTML s"
  "length (dropdown_items (updateSelectedSuggestion s)) = length (dropdown_items s)"
  "autocompleteSuggestions (updateSelectedSuggestion s) = autocompleteSuggestions s"
  "selectedSuggestionIndex (updateSelectedSuggestion s) = selectedSuggestionIndex s"
  "timers (updateSelectedSuggestion s) = timers s"
  "fetches (updateSelectedSuggestion s) = fetches s"
  "clock (updateSelectedSuggestion s) = clock s"
  "autocompleteDebounceTimer (updateSelectedSuggestion s) = autocompleteDebounceTimer s"
  by (simp_all add: updateSelectedSuggestion_def)

lemma run_append: "run (es @ fs) s = run fs (run es s)"
  by (simp add: run_def)

lemma run_Cons: "run (e # es) s = run es (step e s)"
  by (simp add: run_def)

lemma run_Nil: "run [] s = s"
  by (simp add: run_def)

section \<open>The dropdown and the stored suggestions\<close>

lemma idle_hideAutocomplete: "idle_when_hidden (hideAutocomplete s)"
  by (simp add: idle_when_hidden_def)

lemma idle_handleSearchInput:
  "idle_when_hidden s \<Longrightarrow> idle_when_hidden (handleSearchInput v s)"
  by (auto simp: idle_when_hidden_def handleSearchInput_def hideAutocomplete_def
      clearTimeout_def setTimeout_def Let_def split: option.splits if_splits)

lemma idle_finish:
  "idle_when_hidden s \<Longrightarrow> idle_when_hidden (loadAutocompleteSuggestions_finish q r s)"
  by (cases r)
    (auto simp: idle_when_hidden_def loadAutocompleteSuggestions_finish_def
      renderAutocompleteSuggestions_def Let_def split: option.splits if_splits)

lemma idle_keyboard:
  "idle_when_hidden s \<Longrightarrow> idle_when_hidden (handleAutocompleteKeyboard k s)"
  by (cases k)
    (auto simp: idle_when_hidden_def handleAutocompleteKeyboard_def Let_def split: if_splits)

lemma consistent_imp_idle: "dropdown_consistent s \<Longrightarrow> idle_when_hidden s"
  by (auto simp: dropdown_consistent_def idle_when_hidden_def split: if_splits)

lemma consistent_init: "dropdown_consistent init_page"
  by (simp add: dropdown_consistent_def init_page_def)

lemma consistent_hideAutocomplete: "dropdown_consistent (hideAutocomplete s)"
  by (simp add: dropdown_consistent_def)

lemma fold_start:
  "fold (\<lambda>(h, t, q). loadAutocompleteSuggestions_start q) ts s
     = s\<lparr>fetches := fetches s @ map (\<lambda>(h, t, q). SuggestionRequest q) ts\<rparr>"
  by (induction ts arbitrary: s) (auto simp: loadAutocompleteSuggestions_start_def)

lemma elapse_eq:
  "elapse d s =
     s\<lparr>clock := clock s + d,
       timers := filter (\<lambda>(h, t, q). \<not> t \<le> clock s + d) (timers s),
       fetches := fetches s
         @ map (\<lambda>(h, t, q). SuggestionRequest q)
             (filter (\<lambda>(h, t, q). t \<le> clock s + d) (timers s))\<rparr>"
  by (simp add: elapse_def Let_def fold_start)

lemma consistent_elapse: "dropdown_consistent s \<Longrightarrow> dropdown_consistent (elapse d s)"
  by (simp add: dropdown_consistent_def elapse_eq)

lemma consistent_handleSearchInput:
  "dropdown_consistent s \<Longrightarrow> dropdown_consistent (handleSearchInput v s)"
  by (auto simp: dropdown_consistent_def handleSearchInput_def clearTimeout_def
      setTimeout_def Let_def split: option.splits if_splits)

lemma consistent_finish:
  "dropdown_consistent s \<Longrightarrow> dropdown_consistent (loadAutocompleteSuggestions_finish q r s)"
  by (cases r)
    (auto simp: dropdown_consistent_def loadAutocompleteSuggestions_finish_def
      renderAutocompleteSuggestions_def Let_def split: option.splits if_splits)

lemma consistent_search_finish:
  "dropdown_consistent s \<Longrightarrow> dropdown_consistent (performSearch_finish r s)"
  by (cases r)
    (auto simp: dropdown_consistent_def performSearch_finish_def setLoading_def
      renderError_def renderRepos_def renderVideos_def or_empty_def Let_def
      split: option.splits if_splits)

lemma consistent_keyboard:
  "dropdown_consistent s \<Longrightarrow> dropdown_consistent (handleAutocompleteKeyboard k s)"
  by (cases k)
    (auto simp: dropdown_consistent_def handleAutocompleteKeyboard_def Let_def
      split: if_splits)

lemma consistent_mouseenter:
  "dropdown_consistent s \<Longrightarrow> dropdown_consistent (item_mouseenter i s)"
  by (auto simp: dropdown_consistent_def item_mouseenter_def split: if_splits)

lemma consistent_item_click:
  "dropdown_consistent s \<Longrightarrow> dropdown_consistent (item_click i s)"
  by (auto simp: dropdown_consistent_def item_click_def Let_def split: if_splits)

lemma consistent_submit: "dropdown_consistent s \<Longrightarrow> dropdown_consistent (submit s)"
  by (auto simp: dropdown_consistent_def submit_def Let_def split: if_splits)

lemma consistent_step: "dropdown_consistent s \<Longrightarrow> dropdown_consistent (step e s)"
proof (cases e)
  case (Input v)
  assume "dropdown_consistent s"
  then have "dropdown_consistent (s\<lparr>paperInput_value := v\<rparr>)"
    by (simp add: dropdown_consistent_def)
  then show ?thesis
    using Input by (simp add: consistent_handleSearchInput)
qed (simp_all add: consistent_elapse consistent_finish consistent_search_finish
    consistent_keyboard consistent_mouseenter consistent_item_click consistent_submit
    click_outside_def consistent_hideAutocomplete)

lemma consistent_run: "dropdown_consistent s \<Longrightarrow> dropdown_consistent (run es s)"
  by (induction es arbitrary: s) (simp_all add: run_Nil run_Cons consistent_step)

lemma reachable_idle_when_hidden: "idle_when_hidden (run es init_page)"
  by (simp add: consistent_imp_idle consistent_run consistent_init)

lemma three_shown_fields:
  "dropdown_visible three_shown"
  "length (dropdown_items three_shown) = 3"
  "selectedSuggestionIndex three_shown = - 1"
  "autocompleteSuggestions three_shown
     = [paper ''abc one'', paper ''abc two'', paper ''abc three'']"
  by (simp_all add: three_shown_def loadAutocompleteSuggestions_finish_def
      renderAutocompleteSuggestions_def init_page_def Let_def)

text \<open>
  C10. Input handling, the completion of a suggestion request, keyboard handling and
  dismissal each keep the invariant that a dropdown which is not visible goes with an
  empty suggestion list and the selection \<open>-1\<close>; and dismissal clears the displayed
  content of the dropdown together with the stored suggestions and the selection.
\<close>

theorem autocomplete_invariant_preserved:
  assumes "idle_when_hidden s"
  shows "idle_when_hidden (handleSearchInput v s)
       \<and> idle_when_hidden (loadAutocompleteSuggestions_finish q r s)
       \<and> idle_when_hidden (handleAutocompleteKeyboard k s)
       \<and> idle_when_hidden (hideAutocomplete s)
       \<and> \<not> dropdown_visible (hideAutocomplete s)
       \<and> dropdown_innerHTML (hideAutocomplete s) = []
       \<and> dropdown_items (hideAutocomplete s) = []
       \<and> autocompleteSuggestions (hideAutocomplete s) = []
       \<and> selectedSuggestionIndex (hideAutocomplete s) = - 1"
  using assms
  by (simp add: idle_handleSearchInput idle_finish idle_keyboard idle_hideAutocomplete)

theorem autocomplete_invariant_preserved_witness:
  "idle_when_hidden three_shown
   \<and> idle_when_hidden (handleSearchInput ''a'' three_shown)
   \<and> \<not> dropdown_visible (handleSearchInput ''a'' three_shown)
   \<and> idle_when_hidden (loadAutocompleteSuggestions_finish ''ab'' Rejected three_shown)
   \<and> idle_when_hidden (handleAutocompleteKeyboard Escape three_shown)
   \<and> autocompleteSuggestions (hideAutocomplete three_shown) = []"
proof -
  have h: "idle_when_hidden three_shown"
    by (simp add: idle_when_hidden_def three_shown_fields)
  have "\<not> dropdown_visible (handleSearchInput ''a'' three_shown)"
    by (simp add: handleSearchInput_def trim_def is_space_def Let_def split: option.splits)
  with h autocomplete_invariant_preserved [OF h, of "''a''" "''ab''" Rejected Escape]
  show ?thesis by simp
qed


text \<open>
  C8. While suggestions are shown, ArrowDown adds one to the selected index and ArrowUp
  takes one away, clamped to the range from \<open>-1\<close> to the number of items less one
  without wrapping around; the dropdown stays as it is, so that the next key press is
  handled the same way.
\<close>

theorem arrow_keys_clamped:
  assumes "dropdown_visible s" and "dropdown_items s \<noteq> []"
    and "- 1 \<le> selectedSuggestionIndex s"
    and "selectedSuggestionIndex s < int (length (dropdown_items s))"
  shows "selectedSuggestionIndex (handleAutocompleteKeyboard ArrowDown s)
           = min (selectedSuggestionIndex s + 1) (int (length (dropdown_items s)) - 1)
       \<and> selectedSuggestionIndex (handleAutocompleteKeyboard ArrowUp s)
           = max (selectedSuggestionIndex s - 1) (- 1)
       \<and> selectedSuggestionIndex (handleAutocompleteKeyboard ArrowDown s)
           = (if selectedSuggestionIndex s = int (length (dropdown_items s)) - 1
              then selectedSuggestionIndex s else selectedSuggestionIndex s + 1)
       \<and> selectedSuggestionIndex (handleAutocompleteKeyboard ArrowUp s)
           = (if selectedSuggestionIndex s = - 1
              then selectedSuggestionIndex s else selectedSuggestionIndex s - 1)
       \<and> - 1 \<le> selectedSuggestionIndex (handleAutocompleteKeyboard ArrowDown s)
       \<and> selectedSuggestionIndex (handleAutocompleteKeyboard ArrowDown s)
           < int (length (dropdown_items s))
       \<and> - 1 \<le> selectedSuggestionIndex (handleAutocompleteKeyboard ArrowUp s)
       \<and> selectedSuggestionIndex (handleAutocompleteKeyboard ArrowUp s)
           < int (length (dropdown_items s))
       \<and> dropdown_visible (handleAutocompleteKeyboard ArrowDown s)
       \<and> dropdown_visible (handleAutocompleteKeyboard ArrowUp s)
       \<and> length (dropdown_items (handleAutocompleteKeyboard ArrowDown s))
           = length (dropdown_items s)
       \<and> length (dropdown_items (handleAutocompleteKeyboard ArrowUp s))
           = length (dropdown_items s)"
  using assms by (auto simp: handleAutocompleteKeyboard_def Let_def)

theorem arrow_keys_clamped_witness:
  "dropdown_visible three_shown \<and> dropdown_items three_shown \<noteq> []
   \<and> selectedSuggestionIndex three_shown = - 1
   \<and> selectedSuggestionIndex (handleAutocompleteKeyboard ArrowDown three_shown) = 0
   \<and> selectedSuggestionIndex (handleAutocompleteKeyboard ArrowUp three_shown) = - 1"
proof -
  have v: "dropdown_visible three_shown" and n: "dropdown_items three_shown \<noteq> []"
    and l: "- 1 \<le> selectedSuggestionIndex three_shown"
    and u: "selectedSuggestionIndex three_shown < int (length (dropdown_items three_shown))"
    using three_shown_fields by auto
  from arrow_keys_clamped [OF v n l u] v n show ?thesis
    by (simp add: three_shown_fields)
qed

lemma arrow_selected_item:
  assumes "dropdown_visible s" and "dropdown_items s \<noteq> []" and "i < length (dropdown_items s)"
  shows "selected (dropdown_items (handleAutocompleteKeyboard ArrowDown s) ! i)
           = (int i = min (selectedSuggestionIndex s + 1) (int (length (dropdown_items s)) - 1))"
  using assms
  by (simp add: handleAutocompleteKeyboard_def Let_def updateSelectedSuggestion_def
      nth_enumerate_eq)

lemma arrow_keys_example:
  "map (\<lambda>ks. selectedSuggestionIndex (run (map KeyDown ks) three_shown))
     [[], [ArrowDown], [ArrowDown, ArrowDown], [ArrowDown, ArrowDown, ArrowDown],
      [ArrowDown, ArrowDown, ArrowDown, ArrowDown],
      [ArrowDown, ArrowDown, ArrowDown, ArrowDown, ArrowUp],
      [ArrowDown, ArrowDown, ArrowDown, ArrowDown, ArrowUp, ArrowUp],
      [ArrowDown, ArrowDown, ArrowDown, ArrowDown, ArrowUp, ArrowUp, ArrowUp],
      [ArrowDown, ArrowDown, ArrowDown, ArrowDown, ArrowUp, ArrowUp, ArrowUp, ArrowUp]]
   = [- 1, 0, 1, 2, 2, 1, 0, - 1, - 1]"
proof -
  have down: "dropdown_visible s \<Longrightarrow> length (dropdown_items s) = 3 \<Longrightarrow>
      dropdown_visible (handleAutocompleteKeyboard ArrowDown s)
      \<and> length (dropdown_items (handleAutocompleteKeyboard ArrowDown s)) = 3
      \<and> selectedSuggestionIndex (handleAutocompleteKeyboard ArrowDown s)
          = min (selectedSuggestionIndex s + 1) 2" for s
    by (auto simp: handleAutocompleteKeyboard_def Let_def)
  have up: "dropdown_visible s \<Longrightarrow> length (dropdown_items s) = 3 \<Longrightarrow>
      dropdown_visible (handleAutocompleteKeyboard ArrowUp s)
      \<and> length (dropdown_items (handleAutocompleteKeyboard ArrowUp s)) = 3
      \<and> selectedSuggestionIndex (handleAutocompleteKeyboard ArrowUp s)
          = max (selectedSuggestionIndex s - 1) (- 1)" for s
    by (auto simp: handleAutocompleteKeyboard_def Let_def)
  define d where "d = handleAutocompleteKeyboard ArrowDown"
  define u where "u = handleAutocompleteKeyboard ArrowUp"
  have s0: "dropdown_visible three_shown \<and> length (dropdown_items three_shown) = 3
      \<and> selectedSuggestionIndex three_shown = - 1"
    by (simp add: three_shown_fields)
  have s1: "dropdown_visible (d three_shown) \<and> length (dropdown_items (d three_shown)) = 3
      \<and> selectedSuggestionIndex (d three_shown) = 0"
    using down [of three_shown] s0 by (simp add: d_def)
  have s2: "dropdown_visible (d (d three_shown)) \<and> length (dropdown_items (d (d three_shown))) = 3
      \<and> selectedSuggestionIndex (d (d three_shown)) = 1"
    using down [of "d three_shown"] s1 by (simp add: d_def)
  have s3: "dropdown_visible (d (d (d three_shown)))
      \<and> length (dropdown_items (d (d (d three_shown)))) = 3
      \<and> selectedSuggestionIndex (d (d (d three_shown))) = 2"
    using down [of "d (d three_shown)"] s2 by (simp add: d_def)
  have s4: "dropdown_visible (d (d (d (d three_shown))))
      \<and> length (dropdown_items (d (d (d (d three_shown))))) = 3
      \<and> selectedSuggestionIndex (d (d (d (d three_shown)))) = 2"
    using down [of "d (d (d three_shown))"] s3 by (simp add: d_def)
  have s5: "dropdown_visible (u (d (d (d (d three_shown)))))
      \<and> length (dropdown_items (u (d (d (d (d three_shown)))))) = 3
      \<and> selectedSuggestionIndex (u (d (d (d (d three_shown))))) = 1"
    using up [of "d (d (d (d three_shown)))"] s4 by (simp add: u_def)
  have s6: "dropdown_visible (u (u (d (d (d (d three_shown))))))
      \<and> length (dropdown_items (u (u (d (d (d (d three_shown))))))) = 3
      \<and> selectedSuggestionIndex (u (u (d (d (d (d three_shown)))))) = 0"
    using up [of "u (d (d (d (d three_shown))))"] s5 by (simp add: u_def)
  have s7: "dropdown_visible (u (u (u (d (d (d (d three_shown)))))))
      \<and> length (dropdown_items (u (u (u (d (d (d (d three_shown)))))))) = 3
      \<and> selectedSuggestionIndex (u (u (u (d (d (d (d three_shown))))))) = - 1"
    using up [of "u (u (d (d (d (d three_shown)))))"] s6 by (simp add: u_def)
  have s8: "selectedSuggestionIndex (u (u (u (u (d (d (d (d three_shown)))))))) = - 1"
    using up [of "u (u (u (d (d (d (d three_shown))))))"] s7 by (simp add: u_def)
  show ?thesis
    using s0 s1 s2 s3 s4 s5 s6 s7 s8
    by (simp add: run_def d_def [symmetric] u_def [symmetric])
qed


section \<open>Rendering the repos\<close>

lemma repo_card_starts_with_newline: "\<exists>t. repo_card r = CHR 0x0A # t"
  by (simp add: repo_card_def join_lines_def)

lemma repo_card_not_empty: "repo_card r \<noteq> []"
  using repo_card_starts_with_newline [of r] by auto

lemma cards_start_with_newline:
  "rs \<noteq> [] \<Longrightarrow> \<exists>t. concat (map repo_card rs) = CHR 0x0A # t"
  using repo_card_starts_with_newline [of "hd rs"] by (cases rs) auto

lemma repo_html_kept:
  "concat (filter (\<lambda>h. h \<noteq> []) (map repo_html rs))
     = concat (map repo_card (filter (\<lambda>r. \<not> invalid_repo r) rs))"
  by (induction rs) (simp_all add: repo_html_def repo_card_not_empty)

lemma cards_empty_iff: "(concat (map repo_card rs) = []) = (rs = [])"
  by (cases rs) (simp_all add: repo_card_not_empty)

lemma renderRepos_container:
  "reposContainer (renderRepos repos s) =
     (case repos of
        None \<Rightarrow> repos_empty
      | Some rs \<Rightarrow>
          if rs = [] then repos_empty
          else if filter (\<lambda>r. \<not> invalid_repo r) rs = [] then repos_none_valid
          else concat (map repo_card (filter (\<lambda>r. \<not> invalid_repo r) rs)))"
proof (cases repos)
  case None
  then show ?thesis by (simp add: renderRepos_def)
next
  case (Some rs)
  have "reposContainer (renderRepos (Some rs) s) =
      (if rs = [] then repos_empty
       else if concat (filter (\<lambda>h. h \<noteq> []) (map repo_html rs)) = [] then repos_none_valid
       else concat (filter (\<lambda>h. h \<noteq> []) (map repo_html rs)))"
    by (simp add: renderRepos_def Let_def)
  then have "reposContainer (renderRepos (Some rs) s) =
      (if rs = [] then repos_empty
       else if filter (\<lambda>r. \<not> invalid_repo r) rs = [] then repos_none_valid
       else concat (map repo_card (filter (\<lambda>r. \<not> invalid_repo r) rs)))"
    by (simp only: repo_html_kept cards_empty_iff)
  then show ?thesis
    by (simp only: Some option.case)
qed

lemma renderRepos_other_fields:
  "videosContainer (renderRepos repos s) = videosContainer s"
  "dropdown_visible (renderRepos repos s) = dropdown_visible s"
  "autocompleteSuggestions (renderRepos repos s) = autocompleteSuggestions s"
  by (simp_all add: renderRepos_def Let_def split: option.splits)

lemma invalid_repo_A_B: "\<not> invalid_repo repo_A" "invalid_repo repo_B"
  by (simp_all add: invalid_repo_def repo_A_def repo_B_def truthy_def)

text \<open>
  C4. The two empty states of the repo region have different messages. The region shows
  "No code implementations found" exactly when the collection is absent or empty, and
  "No valid code implementations found" exactly when it is not empty and every entry
  of it is rejected.
\<close>

theorem renderRepos_empty_states:
  \<open>(reposContainer (renderRepos repos s)
        = ''<div class="empty-state">No code implementations found</div>'')
      = (repos = None \<or> repos = Some [])
    \<and> (reposContainer (renderRepos repos s)
        = ''<div class="empty-state">No valid code implementations found</div>'')
      = (\<exists>rs. repos = Some rs \<and> rs \<noteq> [] \<and> list_all invalid_repo rs)\<close>
proof -
  have none: "filter (\<lambda>r. \<not> invalid_repo r) rs = [] \<longleftrightarrow> list_all invalid_repo rs" for rs
    by (induction rs) auto
  have differ: "repos_empty \<noteq> repos_none_valid"
    by (simp add: repos_empty_def repos_none_valid_def)
  have cards: "concat (map repo_card (filter (\<lambda>r. \<not> invalid_repo r) rs)) \<noteq> repos_empty
      \<and> concat (map repo_card (filter (\<lambda>r. \<not> invalid_repo r) rs)) \<noteq> repos_none_valid"
    if "filter (\<lambda>r. \<not> invalid_repo r) rs \<noteq> []" for rs
    using cards_start_with_newline [OF that]
    by (auto simp: repos_empty_def repos_none_valid_def)
  show ?thesis
  proof (cases repos)
    case None
    then show ?thesis
      using differ by (simp add: renderRepos_container repos_empty_def [symmetric]
          repos_none_valid_def [symmetric])
  next
    case (Some rs)
    then show ?thesis
      using differ cards [of rs] none [of rs]
      by (auto simp: renderRepos_container repos_empty_def [symmetric]
          repos_none_valid_def [symmetric])
  qed
qed

theorem renderRepos_empty_states_witness:
  \<open>reposContainer (renderRepos (Some [repo_B]) init_page)
      = ''<div class="empty-state">No valid code implementations found</div>''
    \<and> reposContainer (renderRepos (Some []) init_page)
      = ''<div class="empty-state">No code implementations found</div>''
    \<and> reposContainer (renderRepos None init_page)
      = ''<div class="empty-state">No code implementations found</div>''
    \<and> reposContainer (renderRepos (Some [repo_B]) init_page)
      \<noteq> reposContainer (renderRepos (Some []) init_page)\<close>
proof -
  have b: "list_all invalid_repo [repo_B]"
    by (simp add: invalid_repo_A_B)
  show ?thesis
    using renderRepos_empty_states [of "Some [repo_B]" init_page]
      renderRepos_empty_states [of "Some []" init_page]
      renderRepos_empty_states [of None init_page] b
    by auto
qed





section \<open>The search and its two regions\<close>

lemma error_banner_not_loading: "error_banner m \<noteq> loadingHtml"
proof
  assume "error_banner m = loadingHtml"
  then have "take 18 (error_banner m) = take 18 loadingHtml" by simp
  then show False
    by (simp add: error_banner_def loadingHtml_def join_lines_def)
qed

lemma video_cards_not_loading: "vs \<noteq> [] \<Longrightarrow> concat (map video_card vs) \<noteq> loadingHtml"
proof
  assume "vs \<noteq> []" and eq: "concat (map video_card vs) = loadingHtml"
  then obtain v rest where "vs = v # rest" by (cases vs) auto
  with eq have "take 6 (video_card v @ concat (map video_card rest)) = take 6 loadingHtml"
    by simp
  then show False
    by (simp add: video_card_def loadingHtml_def join_lines_def)
qed

lemma repo_cards_not_loading: "rs \<noteq> [] \<Longrightarrow> concat (map repo_card rs) \<noteq> loadingHtml"
proof
  assume "rs \<noteq> []" and eq: "concat (map repo_card rs) = loadingHtml"
  then obtain r rest where "rs = r # rest" by (cases rs) auto
  with eq have "take 6 (repo_card r @ concat (map repo_card rest)) = take 6 loadingHtml"
    by simp
  then show False
    by (simp add: repo_card_def loadingHtml_def join_lines_def)
qed

lemma renderVideos_not_loading: "videosContainer (renderVideos videos s) \<noteq> loadingHtml"
proof (cases videos)
  case None
  then show ?thesis
    by (simp add: renderVideos_def videos_empty_def loadingHtml_def join_lines_def)
next
  case (Some vs)
  show ?thesis
  proof (cases "vs = []")
    case True
    with Some show ?thesis
      by (simp add: renderVideos_def videos_empty_def loadingHtml_def join_lines_def)
  next
    case False
    with Some show ?thesis
      by (simp add: renderVideos_def video_cards_not_loading)
  qed
qed

lemma renderRepos_not_loading: "reposContainer (renderRepos repos s) \<noteq> loadingHtml"
proof -
  have e: "repos_empty \<noteq> loadingHtml" and n: "repos_none_valid \<noteq> loadingHtml"
    by (simp_all add: repos_empty_def repos_none_valid_def loadingHtml_def join_lines_def)
  show ?thesis
    using e n repo_cards_not_loading
    by (simp add: renderRepos_container split: option.splits)
qed

lemma renderVideos_other_fields:
  "reposContainer (renderVideos videos s) = reposContainer s"
  by (simp add: renderVideos_def split: option.splits)

lemma loadingHtml_markup:
  \<open>loadingHtml
     = CHR 0x0A # ''    <div class="loading-dots">''
         @ CHR 0x0A # ''      <span class="pulse"></span>''
         @ CHR 0x0A # ''      <span class="pulse"></span>''
         @ CHR 0x0A # ''      <span class="pulse"></span>''
         @ CHR 0x0A # ''    </div>'' @ CHR 0x0A # ''  ''\<close>
  by (simp add: loadingHtml_def join_lines_def)

lemma error_banner_markup:
  \<open>error_banner m
     = CHR 0x0A # ''    <div class="error-banner">'' @ CHR 0x0A # ''      ''
         @ escapeHtml m
         @ CHR 0x0A # ''    </div>'' @ CHR 0x0A # ''  ''\<close>
  by (simp add: error_banner_def join_lines_def)

text \<open>
  C9. When the search request fails, by a rejection or by a status that is not a success,
  the video region and the repo region hold the same error banner: the element of class
  \<^verbatim>\<open>error-banner\<close> around the escaped message, which is the error's own when it has
  one and the fallback otherwise. The search starts by showing the loading display in
  both regions, and whatever the outcome neither region shows it once the search has
  completed.
\<close>

theorem search_failure_banner:
  \<open>videosContainer (performSearch_finish (SearchRejected m) s)
     = CHR 0x0A # ''    <div class="error-banner">'' @ CHR 0x0A # ''      ''
         @ escapeHtml (case m of
               None \<Rightarrow> ''Something went wrong. Please try again.''
             | Some t \<Rightarrow> if t = [] then ''Something went wrong. Please try again.'' else t)
         @ CHR 0x0A # ''    </div>'' @ CHR 0x0A # ''  ''
   \<and> reposContainer (performSearch_finish (SearchRejected m) s)
     = videosContainer (performSearch_finish (SearchRejected m) s)
   \<and> videosContainer (performSearch_finish (SearchRejected None) s)
     = CHR 0x0A # ''    <div class="error-banner">'' @ CHR 0x0A # ''      ''
         @ ''Something went wrong. Please try again.''
         @ CHR 0x0A # ''    </div>'' @ CHR 0x0A # ''  ''
   \<and> videosContainer (performSearch_finish (SearchRejected (Some ''Failed to fetch <1 & 2>'')) s)
     = CHR 0x0A # ''    <div class="error-banner">'' @ CHR 0x0A # ''      ''
         @ ''Failed to fetch &lt;1 &amp; 2&gt;''
         @ CHR 0x0A # ''    </div>'' @ CHR 0x0A # ''  ''
   \<and> videosContainer (performSearch_finish SearchNotOk s)
     = CHR 0x0A # ''    <div class="error-banner">'' @ CHR 0x0A # ''      ''
         @ ''Search request failed. Please try again.''
         @ CHR 0x0A # ''    </div>'' @ CHR 0x0A # ''  ''
   \<and> reposContainer (performSearch_finish SearchNotOk s)
     = videosContainer (performSearch_finish SearchNotOk s)
   \<and> videosContainer (performSearch_start q s)
     = CHR 0x0A # ''    <div class="loading-dots">''
         @ CHR 0x0A # ''      <span class="pulse"></span>''
         @ CHR 0x0A # ''      <span class="pulse"></span>''
         @ CHR 0x0A # ''      <span class="pulse"></span>''
         @ CHR 0x0A # ''    </div>'' @ CHR 0x0A # ''  ''
   \<and> reposContainer (performSearch_start q s) = videosContainer (performSearch_start q s)
   \<and> videosContainer (performSearch_finish r s)
     \<noteq> CHR 0x0A # ''    <div class="loading-dots">''
         @ CHR 0x0A # ''      <span class="pulse"></span>''
         @ CHR 0x0A # ''      <span class="pulse"></span>''
         @ CHR 0x0A # ''      <span class="pulse"></span>''
         @ CHR 0x0A # ''    </div>'' @ CHR 0x0A # ''  ''
   \<and> reposContainer (performSearch_finish r s)
     \<noteq> CHR 0x0A # ''    <div class="loading-dots">''
         @ CHR 0x0A # ''      <span class="pulse"></span>''
         @ CHR 0x0A # ''      <span class="pulse"></span>''
         @ CHR 0x0A # ''      <span class="pulse"></span>''
         @ CHR 0x0A # ''    </div>'' @ CHR 0x0A # ''  ''\<close>
proof -
  have rejected: "videosContainer (performSearch_finish (SearchRejected x) s)
        = error_banner (or_else x fallback_message)
      \<and> reposContainer (performSearch_finish (SearchRejected x) s)
        = error_banner (or_else x fallback_message)" for x
    by (simp add: performSearch_finish_def setLoading_def renderError_def)
  have notok: "videosContainer (performSearch_finish SearchNotOk s)
        = error_banner ''Search request failed. Please try again.''
      \<and> reposContainer (performSearch_finish SearchNotOk s)
        = error_banner ''Search request failed. Please try again.''"
    by (simp add: performSearch_finish_def setLoading_def renderError_def or_else_def)
  have start: "videosContainer (performSearch_start q s) = loadingHtml
      \<and> reposContainer (performSearch_start q s) = loadingHtml"
    by (simp add: performSearch_start_def setLoading_def Let_def)
  have finished: "videosContainer (performSearch_finish r s) \<noteq> loadingHtml
      \<and> reposContainer (performSearch_finish r s) \<noteq> loadingHtml"
  proof (cases r)
    case (SearchRejected x)
    then show ?thesis
      by (simp add: rejected error_banner_not_loading)
  next
    case SearchNotOk
    then show ?thesis
      by (simp add: notok error_banner_not_loading)
  next
    case (SearchJson vs rs)
    then show ?thesis
      by (simp add: performSearch_finish_def setLoading_def renderRepos_not_loading
          renderRepos_other_fields renderVideos_not_loading)
  qed
  have c0: \<open>videosContainer (performSearch_finish (SearchRejected m) s)
     = CHR 0x0A # ''    <div class="error-banner">'' @ CHR 0x0A # ''      ''
         @ escapeHtml (case m of
               None \<Rightarrow> ''Something went wrong. Please try again.''
             | Some t \<Rightarrow> if t = [] then ''Something went wrong. Please try again.'' else t)
         @ CHR 0x0A # ''    </div>'' @ CHR 0x0A # ''  ''\<close>
    by (simp add: rejected error_banner_markup or_else_def fallback_message_def split: option.splits)
  have c1: \<open>reposContainer (performSearch_finish (SearchRejected m) s)
     = videosContainer (performSearch_finish (SearchRejected m) s)\<close>
    by (simp add: rejected)
  have c2: \<open>videosContainer (performSearch_finish (SearchRejected None) s)
     = CHR 0x0A # ''    <div class="error-banner">'' @ CHR 0x0A # ''      ''
         @ ''Something went wrong. Please try again.''
         @ CHR 0x0A # ''    </div>'' @ CHR 0x0A # ''  ''\<close>
    by (simp add: rejected error_banner_markup or_else_def fallback_message_def)
  have c3: \<open>videosContainer (performSearch_finish (SearchRejected (Some ''Failed to fetch <1 & 2>'')) s)
     = CHR 0x0A # ''    <div class="error-banner">'' @ CHR 0x0A # ''      ''
         @ ''Failed to fetch &lt;1 &amp; 2&gt;''
         @ CHR 0x0A # ''    </div>'' @ CHR 0x0A # ''  ''\<close>
    by (simp add: rejected error_banner_markup or_else_def)
  have c4: \<open>videosContainer (performSearch_finish SearchNotOk s)
     = CHR 0x0A # ''    <div class="error-banner">'' @ CHR 0x0A # ''      ''
         @ ''Search request failed. Please try again.''
         @ CHR 0x0A # ''    </div>'' @ CHR 0x0A # ''  ''\<close>
    by (simp add: notok error_banner_markup)
  have c5: \<open>reposContainer (performSearch_finish SearchNotOk s)
     = videosContainer (performSearch_finish SearchNotOk s)\<close>
    by (simp add: notok)
  have c6: \<open>videosContainer (performSearch_start q s)
     = CHR 0x0A # ''    <div class="loading-dots">''
         @ CHR 0x0A # ''      <span class="pulse"></span>''
         @ CHR 0x0A # ''      <span class="pulse"></span>''
         @ CHR 0x0A # ''      <span class="pulse"></span>''
         @ CHR 0x0A # ''    </div>'' @ CHR 0x0A # ''  ''\<close>
    by (simp add: start loadingHtml_markup)
  have c7: \<open>reposContainer (performSearch_start q s) = videosContainer (performSearch_start q s)\<close>
    by (simp add: start)
  have c8: \<open>videosContainer (performSearch_finish r s)
     \<noteq> CHR 0x0A # ''    <div class="loading-dots">''
         @ CHR 0x0A # ''      <span class="pulse"></span>''
         @ CHR 0x0A # ''      <span class="pulse"></span>''
         @ CHR 0x0A # ''      <span class="pulse"></span>''
         @ CHR 0x0A # ''    </div>'' @ CHR 0x0A # ''  ''\<close>
    using finished by (simp add: loadingHtml_markup)
  have c9: \<open>reposContainer (performSearch_finish r s)
     \<noteq> CHR 0x0A # ''    <div class="loading-dots">''
         @ CHR 0x0A # ''      <span class="pulse"></span>''
         @ CHR 0x0A # ''      <span class="pulse"></span>''
         @ CHR 0x0A # ''      <span class="pulse"></span>''
         @ CHR 0x0A # ''    </div>'' @ CHR 0x0A # ''  ''\<close>
    using finished by (simp add: loadingHtml_markup)
  show ?thesis
    by (intro conjI c0 c1 c2 c3 c4 c5 c6 c7 c8 c9)
qed

lemma search_failure_example:
  "videosContainer (run [Submit, SearchResponse (SearchRejected None)]
       (init_page\<lparr>paperInput_value := ''transformer''\<rparr>))
     = error_banner ''Something went wrong. Please try again.''
   \<and> fetches (run [Submit] (init_page\<lparr>paperInput_value := ''transformer''\<rparr>))
     = [SearchRequest ''transformer'' None]"
  by (simp add: run_def submit_def trim_def is_space_def Let_def init_page_def
      performSearch_finish_def performSearch_start_def setLoading_def renderError_def
      or_else_def fallback_message_def hideAutocomplete_def)


section \<open>Suggestion requests: debounce and responses\<close>

lemma owned_init: "timers_owned init_page"
  by (simp add: timers_owned_def init_page_def)

lemma owned_clear:
  "timers_owned s \<Longrightarrow> autocompleteDebounceTimer s = Some h
     \<Longrightarrow> filter (\<lambda>(i, due, q). i \<noteq> h) (timers s) = []"
  by (auto simp: timers_owned_def list_all_iff filter_empty_conv)

lemma owned_none: "timers_owned s \<Longrightarrow> autocompleteDebounceTimer s = None \<Longrightarrow> timers s = []"
  by (cases "timers s") (auto simp: timers_owned_def)

lemma input_effect:
  assumes "timers_owned s"
  shows "fetches (step (Input v) s) = fetches s \<and> clock (step (Input v) s) = clock s
       \<and> armed v (step (Input v) s)"
proof (cases "autocompleteDebounceTimer s")
  case None
  with assms have "timers s = []" by (simp add: owned_none)
  with None show ?thesis
    by (simp add: handleSearchInput_def setTimeout_def Let_def armed_def timers_owned_def)
next
  case (Some h)
  with assms have "filter (\<lambda>(i, due, q). i \<noteq> h) (timers s) = []" by (simp add: owned_clear)
  with Some show ?thesis
    by (simp add: handleSearchInput_def setTimeout_def clearTimeout_def Let_def armed_def
        timers_owned_def)
qed

lemma elapse_early:
  assumes "armed v s" and "d < 300"
  shows "fetches (elapse d s) = fetches s \<and> timers (elapse d s) = timers s
       \<and> autocompleteDebounceTimer (elapse d s) = autocompleteDebounceTimer s
       \<and> timers_owned (elapse d s)"
proof (cases "length (trim v) < 2")
  case True
  with assms show ?thesis
    by (simp add: armed_def elapse_eq timers_owned_def)
next
  case False
  with assms obtain h where "timers s = [(h, clock s + 300, trim v)]"
    by (auto simp: armed_def)
  with assms show ?thesis
    by (simp add: armed_def elapse_eq timers_owned_def)
qed

lemma elapse_late:
  assumes "armed v s" and "2 \<le> length (trim v)" and "300 \<le> d"
  shows "fetches (elapse d s) = fetches s @ [SuggestionRequest (trim v)]
       \<and> timers (elapse d s) = []"
proof -
  from assms obtain h where "timers s = [(h, clock s + 300, trim v)]"
    by (auto simp: armed_def)
  with assms show ?thesis
    by (simp add: elapse_eq)
qed

lemma typing_keeps_armed:
  assumes "armed v s" and "list_all (\<lambda>(d, w). d < 300) rest"
  shows "fetches (run (concat (map (\<lambda>(d, w). [Elapse d, Input w]) rest)) s) = fetches s
       \<and> armed (last (v # map snd rest))
           (run (concat (map (\<lambda>(d, w). [Elapse d, Input w]) rest)) s)"
  using assms
proof (induction rest arbitrary: v s)
  case Nil
  then show ?case by (simp add: run_Nil)
next
  case (Cons p rest)
  obtain d w where p: "p = (d, w)" by (cases p)
  with Cons.prems have d: "d < 300" and r: "list_all (\<lambda>(d, w). d < 300) rest"
    by simp_all
  have e: "fetches (elapse d s) = fetches s \<and> timers_owned (elapse d s)"
    using elapse_early [OF Cons.prems(1) d] by simp
  then have i: "fetches (step (Input w) (elapse d s)) = fetches s
      \<and> armed w (step (Input w) (elapse d s))"
    using input_effect [of "elapse d s" w] by simp
  then have "fetches (run (concat (map (\<lambda>(d, w). [Elapse d, Input w]) rest))
        (step (Input w) (elapse d s))) = fetches s
      \<and> armed (last (w # map snd rest))
          (run (concat (map (\<lambda>(d, w). [Elapse d, Input w]) rest))
            (step (Input w) (elapse d s)))"
    using Cons.IH [of w "step (Input w) (elapse d s)"] r by simp
  then show ?case
    using p by (simp add: run_Cons)
qed

lemma owned_step: "timers_owned s \<Longrightarrow> timers_owned (step e s)"
proof (cases e)
  case (Elapse d)
  assume "timers_owned s"
  then show ?thesis
    using Elapse by (simp add: elapse_eq timers_owned_def list_all_iff)
next
  case (Input v)
  assume "timers_owned s"
  then show ?thesis
    using Input input_effect [of s v] by (simp add: armed_def)
next
  case (SuggestionResponse q r)
  assume "timers_owned s"
  then show ?thesis
    using SuggestionResponse
    by (cases r)
      (simp_all add: timers_owned_def loadAutocompleteSuggestions_finish_def
        renderAutocompleteSuggestions_def Let_def split: option.splits)
next
  case (SearchResponse r)
  assume "timers_owned s"
  then show ?thesis
    using SearchResponse
    by (cases r)
      (simp_all add: timers_owned_def performSearch_finish_def setLoading_def
        renderError_def renderRepos_def renderVideos_def or_empty_def Let_def
        split: option.splits)
next
  case (KeyDown k)
  assume "timers_owned s"
  then show ?thesis
    using KeyDown
    by (cases k) (simp_all add: timers_owned_def handleAutocompleteKeyboard_def Let_def)
next
  case (MouseEnter i)
  assume "timers_owned s"
  then show ?thesis
    using MouseEnter by (simp add: timers_owned_def item_mouseenter_def)
next
  case (ItemClick i)
  assume "timers_owned s"
  then show ?thesis
    using ItemClick by (simp add: timers_owned_def item_click_def Let_def)
next
  case ClickOutside
  assume "timers_owned s"
  then show ?thesis
    using ClickOutside by (simp add: timers_owned_def click_outside_def)
next
  case Submit
  assume "timers_owned s"
  then show ?thesis
    using Submit by (simp add: timers_owned_def submit_def Let_def)
qed

lemma owned_run: "timers_owned s \<Longrightarrow> timers_owned (run es s)"
  by (induction es arbitrary: s) (simp_all add: run_Nil run_Cons owned_step)

text \<open>
  C7. After any history of the page, let input events follow one another, each less
  than the delay of 300 ms after the one before, the last of them with a trimmed query
  of two characters or more. While they arrive no suggestion request is sent, and
  exactly one timer is pending, the last event's. Once the delay has passed, exactly one
  request has been sent, for the query that the last event trimmed from its value, and
  no timer is pending.
\<close>

theorem debounce_one_request:
  assumes "list_all (\<lambda>(d, w). d < 300) rest"
    and "2 \<le> length (trim (last (v # map snd rest)))"
    and "300 \<le> wait"
  shows "fetches (run (es @ keystrokes v rest) init_page) = fetches (run es init_page)
       \<and> map (\<lambda>(h, due, q). q) (timers (run (es @ keystrokes v rest) init_page))
           = [trim (last (v # map snd rest))]
       \<and> fetches (run (es @ keystrokes v rest @ [Elapse wait]) init_page)
           = fetches (run es init_page) @ [SuggestionRequest (trim (last (v # map snd rest)))]
       \<and> timers (run (es @ keystrokes v rest @ [Elapse wait]) init_page) = []"
proof -
  define s0 where "s0 = run es init_page"
  define s1 where "s1 = step (Input v) s0"
  define s2 where "s2 = run (concat (map (\<lambda>(d, w). [Elapse d, Input w]) rest)) s1"
  have "timers_owned s0"
    by (simp add: s0_def owned_run owned_init)
  then have 1: "fetches s1 = fetches s0 \<and> armed v s1"
    using input_effect [of s0 v] by (simp add: s1_def)
  then have 2: "fetches s2 = fetches s0 \<and> armed (last (v # map snd rest)) s2"
    using typing_keeps_armed [of v s1 rest] assms(1) by (simp add: s2_def)
  then have 3: "fetches (elapse wait s2)
        = fetches s0 @ [SuggestionRequest (trim (last (v # map snd rest)))]
      \<and> timers (elapse wait s2) = []"
    using elapse_late [of "last (v # map snd rest)" s2 wait] assms(2,3) by simp
  have 4: "map (\<lambda>(h, due, q). q) (timers s2) = [trim (last (v # map snd rest))]"
  proof -
    from 2 assms(2) obtain h where "timers s2 = [(h, clock s2 + 300, trim (last (v # map snd rest)))]"
      by (auto simp: armed_def)
    then show ?thesis by simp
  qed
  have r1: "run (es @ keystrokes v rest) init_page = s2"
    by (simp add: run_append run_Cons keystrokes_def s0_def s1_def s2_def)
  have r2: "run (es @ keystrokes v rest @ [Elapse wait]) init_page = elapse wait s2"
    by (simp add: run_append run_Cons run_Nil keystrokes_def s0_def s1_def s2_def)
  show ?thesis
    using 2 3 4 by (simp only: r1 r2 s0_def)
qed

theorem debounce_one_request_witness:
  "fetches (run (keystrokes ''a'' [(100, ''ab''), (100, ''abc'')] @ [Elapse 300]) init_page)
     = [SuggestionRequest ''abc'']
   \<and> fetches (run (keystrokes ''a'' [(100, ''ab''), (100, ''abc'')]) init_page) = []"
proof -
  have g: "list_all (\<lambda>(d, w). d < 300) [(100::nat, ''ab''), (100, ''abc'')]"
    by simp
  have t: "trim (last (''a'' # map snd [(100::nat, ''ab''), (100, ''abc'')])) = ''abc''"
    by (simp add: trim_def is_space_def)
  then have q: "2 \<le> length (trim (last (''a'' # map snd [(100::nat, ''ab''), (100, ''abc'')])))"
    by simp
  have w: "(300::nat) \<le> 300" by simp
  show ?thesis
    using debounce_one_request [OF g q w, of "[]"] t
    by (simp add: run_Nil init_page_def)
qed

lemma decode_refs_plain:
  "CHR ''&'' \<notin> set t \<Longrightarrow> decode_refs t = t"
  by (induction t) auto

lemma normalize_newlines_plain:
  "CHR 0x0D \<notin> set t \<Longrightarrow> normalize_newlines t = t"
  by (induction t rule: normalize_newlines.induct) auto

lemma replace_nul_plain:
  "CHR 0x00 \<notin> set t \<Longrightarrow> replace_nul t = t"
  by (induction t) (auto simp: replace_nul_def)

lemma paper_item: "CHR ''&'' \<notin> set t \<Longrightarrow> CHR 0xA0 \<notin> set t \<Longrightarrow> CHR ''<'' \<notin> set t
    \<Longrightarrow> CHR ''>'' \<notin> set t \<Longrightarrow> CHR 0x22 \<notin> set t \<Longrightarrow> CHR 0x0D \<notin> set t
    \<Longrightarrow> CHR 0x00 \<notin> set t
    \<Longrightarrow> suggestion_item (paper t) = \<lparr>data_paper = t, selected = False\<rparr>"
proof -
  assume a: "CHR ''&'' \<notin> set t" "CHR 0xA0 \<notin> set t" "CHR ''<'' \<notin> set t"
    "CHR ''>'' \<notin> set t" and q: "CHR 0x22 \<notin> set t"
    and r: "CHR 0x0D \<notin> set t" and z: "CHR 0x00 \<notin> set t"
  from a have e: "escapeHtml t = t" by (induction t) auto
  from q have w: "takeWhile (\<lambda>c. c \<noteq> CHR 0x22) t = t"
    by (induction t) auto
  have d: "decode_refs t = t"
    using a(1) by (rule decode_refs_plain)
  have n: "normalize_newlines t = t"
    using r by (rule normalize_newlines_plain)
  have u: "replace_nul t = t"
    using z by (rule replace_nul_plain)
  show ?thesis
    by (simp add: suggestion_item_def paper_def text_of_def attribute_value_def e w d n u)
qed

lemma finish_shows:
  "l \<noteq> [] \<Longrightarrow>
     loadAutocompleteSuggestions_finish q (Json (Some l)) s =
       s\<lparr>autocompleteSuggestions := l, selectedSuggestionIndex := - 1,
         dropdown_innerHTML := concat (map (\<lambda>(index, sg). suggestion_html index sg) (enumerate 0 l)),
         dropdown_items := map suggestion_item l, dropdown_visible := True\<rparr>"
  by (simp add: loadAutocompleteSuggestions_finish_def renderAutocompleteSuggestions_def Let_def)

lemma two_requests_fetches:
  "fetches (run two_requests init_page) = [SuggestionRequest ''abc'', SuggestionRequest ''abcd'']"
  by (simp add: two_requests_def run_def init_page_def handleSearchInput_def trim_def
      is_space_def setTimeout_def clearTimeout_def elapse_eq Let_def)

text \<open>
  C1, as stated, fails: the request for \<open>abc\<close> is in flight when the input \<open>abcd\<close> arms
  and completes a newer request; the response for \<open>abc\<close> arrives last, and the stored
  and displayed suggestions become those of \<open>abc\<close>.
\<close>

theorem stale_response_displayed_counterexample:
  "fetches (run two_requests init_page) = [SuggestionRequest ''abc'', SuggestionRequest ''abcd'']
   \<and> autocompleteSuggestions
        (run (two_requests @ [SuggestionResponse ''abcd'' (Json (Some [paper ''abcd paper'']))])
          init_page) = [paper ''abcd paper'']
   \<and> autocompleteSuggestions
        (run (two_requests @ [SuggestionResponse ''abcd'' (Json (Some [paper ''abcd paper''])),
                SuggestionResponse ''abc'' (Json (Some [paper ''abc paper'']))]) init_page)
       = [paper ''abc paper'']
   \<and> map data_paper (dropdown_items
        (run (two_requests @ [SuggestionResponse ''abcd'' (Json (Some [paper ''abcd paper''])),
                SuggestionResponse ''abc'' (Json (Some [paper ''abc paper'']))]) init_page))
       = [''abc paper'']
   \<and> [paper ''abc paper''] \<noteq> [paper ''abcd paper'']"
  by (simp add: two_requests_fetches run_append run_Cons run_Nil finish_shows paper_item)
    (simp add: paper_def)

text \<open>
  C1, amended. The script has no stale-response suppression: a suggestion response is
  applied when it arrives, whichever request it answers. After any history of events, a
  successful response with a non-empty list makes that list the stored and displayed
  suggestion set, with the dropdown visible and no row selected; so the state reflects
  the response that arrived last, not the request that was made last.
\<close>

theorem response_applied_on_arrival:
  assumes "l \<noteq> []"
  shows "autocompleteSuggestions (run (es @ [SuggestionResponse q (Json (Some l))]) s) = l
       \<and> dropdown_items (run (es @ [SuggestionResponse q (Json (Some l))]) s)
           = map suggestion_item l
       \<and> dropdown_innerHTML (run (es @ [SuggestionResponse q (Json (Some l))]) s)
           = concat (map (\<lambda>(index, sg). suggestion_html index sg) (enumerate 0 l))
       \<and> dropdown_visible (run (es @ [SuggestionResponse q (Json (Some l))]) s)
       \<and> selectedSuggestionIndex (run (es @ [SuggestionResponse q (Json (Some l))]) s) = - 1"
  using assms by (simp add: run_append run_Cons run_Nil finish_shows)

theorem response_applied_on_arrival_witness:
  "[paper ''abc paper''] \<noteq> []
   \<and> autocompleteSuggestions
        (run ((two_requests @ [SuggestionResponse ''abcd'' (Json (Some [paper ''abcd paper'']))])
               @ [SuggestionResponse ''abc'' (Json (Some [paper ''abc paper'']))]) init_page)
       = [paper ''abc paper'']"
proof -
  have n: "[paper ''abc paper''] \<noteq> []" by simp
  show ?thesis
    using response_applied_on_arrival [OF n,
        of "two_requests @ [SuggestionResponse ''abcd'' (Json (Some [paper ''abcd paper'']))]"
          "''abc''" init_page] n
    by simp
qed

text \<open>
  C2 on the script. A rejected request and an empty list hide the dropdown and clear the
  suggestions, and write no error into the page; the rejection alone is logged. A
  response with a status that is not a success returns at once: the state is left as it
  was, so that suggestions shown before stay on display, and nothing is logged.
\<close>

theorem suggestion_http_error_keeps_dropdown:
  "loadAutocompleteSuggestions_finish q NotOk s = s
   \<and> dropdown_visible (run shown_then_http_error init_page)
   \<and> autocompleteSuggestions (run shown_then_http_error init_page) = [paper ''abc paper'']
   \<and> map data_paper (dropdown_items (run shown_then_http_error init_page)) = [''abc paper'']
   \<and> console (run shown_then_http_error init_page) = []
   \<and> fetches (run shown_then_http_error init_page)
       = [SuggestionRequest ''abc'', SuggestionRequest ''abcd'']"
proof -
  have "loadAutocompleteSuggestions_finish q NotOk s = s"
    by (simp add: loadAutocompleteSuggestions_finish_def)
  moreover have "run shown_then_http_error init_page
      = run [Input ''abc'', Elapse 300, SuggestionResponse ''abc'' (Json (Some [paper ''abc paper''])),
          Input ''abcd'', Elapse 300] init_page"
    by (simp add: shown_then_http_error_def run_def loadAutocompleteSuggestions_finish_def)
  moreover have "dropdown_visible (run [Input ''abc'', Elapse 300,
          SuggestionResponse ''abc'' (Json (Some [paper ''abc paper''])),
          Input ''abcd'', Elapse 300] init_page)
     \<and> autocompleteSuggestions (run [Input ''abc'', Elapse 300,
          SuggestionResponse ''abc'' (Json (Some [paper ''abc paper''])),
          Input ''abcd'', Elapse 300] init_page) = [paper ''abc paper'']
     \<and> map data_paper (dropdown_items (run [Input ''abc'', Elapse 300,
          SuggestionResponse ''abc'' (Json (Some [paper ''abc paper''])),
          Input ''abcd'', Elapse 300] init_page)) = [''abc paper'']
     \<and> console (run [Input ''abc'', Elapse 300,
          SuggestionResponse ''abc'' (Json (Some [paper ''abc paper''])),
          Input ''abcd'', Elapse 300] init_page) = []
     \<and> fetches (run [Input ''abc'', Elapse 300,
          SuggestionResponse ''abc'' (Json (Some [paper ''abc paper''])),
          Input ''abcd'', Elapse 300] init_page)
         = [SuggestionRequest ''abc'', SuggestionRequest ''abcd'']"
    by (simp add: run_def init_page_def handleSearchInput_def trim_def is_space_def
        setTimeout_def clearTimeout_def elapse_eq Let_def finish_shows paper_item)
  ultimately show ?thesis by simp
qed

lemma suggestion_failure_goes_idle:
  "\<not> dropdown_visible (loadAutocompleteSuggestions_finish q Rejected s)
   \<and> autocompleteSuggestions (loadAutocompleteSuggestions_finish q Rejected s) = []
   \<and> dropdown_innerHTML (loadAutocompleteSuggestions_finish q Rejected s) = []
   \<and> videosContainer (loadAutocompleteSuggestions_finish q Rejected s) = videosContainer s
   \<and> reposContainer (loadAutocompleteSuggestions_finish q Rejected s) = reposContainer s
   \<and> console (loadAutocompleteSuggestions_finish q Rejected s)
       = console s @ [(Error, ''Error loading autocomplete suggestions:'')]
   \<and> \<not> dropdown_visible (loadAutocompleteSuggestions_finish q (Json (Some [])) s)
   \<and> autocompleteSuggestions (loadAutocompleteSuggestions_finish q (Json (Some [])) s) = []
   \<and> dropdown_innerHTML (loadAutocompleteSuggestions_finish q (Json (Some [])) s) = []
   \<and> \<not> dropdown_visible (loadAutocompleteSuggestions_finish q (Json None) s)
   \<and> autocompleteSuggestions (loadAutocompleteSuggestions_finish q (Json None) s) = []
   \<and> videosContainer (loadAutocompleteSuggestions_finish q (Json (Some [])) s) = videosContainer s
   \<and> reposContainer (loadAutocompleteSuggestions_finish q (Json (Some [])) s) = reposContainer s
   \<and> console (loadAutocompleteSuggestions_finish q (Json (Some [])) s) = console s"
  by (simp add: loadAutocompleteSuggestions_finish_def renderAutocompleteSuggestions_def)


section \<open>Escaping\<close>

lemma escapeHtml_append: "escapeHtml (a @ b) = escapeHtml a @ escapeHtml b"
  by (induction a) simp_all

lemma escapeHtml_no_angle_bracket:
  "CHR ''<'' \<notin> set (escapeHtml t) \<and> CHR ''>'' \<notin> set (escapeHtml t)"
  by (induction t) auto

lemma escapeHtml_example:
  "escapeHtml ''<img src=x onerror=alert(1)>'' = ''&lt;img src=x onerror=alert(1)&gt;''"
  by simp

lemma decode_escapeHtml: "decode_refs (escapeHtml t) = t"
  by (induction t) auto

lemma escapeHtml_takeWhile:
  "takeWhile (\<lambda>c. c \<noteq> CHR 0x22) (escapeHtml t) = escapeHtml (takeWhile (\<lambda>c. c \<noteq> CHR 0x22) t)"
  by (induction t) auto

lemma escapeHtml_keeps_carriage_returns:
  "(CHR 0x0D \<in> set (escapeHtml t)) = (CHR 0x0D \<in> set t)"
  by (induction t) auto

lemma attribute_value_escapeHtml:
  assumes "CHR 0x0D \<notin> set t" and "CHR 0x00 \<notin> set t"
  shows "attribute_value (escapeHtml t) = takeWhile (\<lambda>c. c \<noteq> CHR 0x22) t"
proof -
  have "normalize_newlines (escapeHtml t) = escapeHtml t"
    using assms(1) by (simp add: normalize_newlines_plain escapeHtml_keeps_carriage_returns)
  moreover have "CHR 0x00 \<notin> set (takeWhile (\<lambda>c. c \<noteq> CHR 0x22) t)"
    using assms(2) by (auto dest: set_takeWhileD)
  ultimately show ?thesis
    by (simp add: attribute_value_def escapeHtml_takeWhile decode_escapeHtml replace_nul_plain)
qed

lemma attribute_value_carriage_return:
  "attribute_value (escapeHtml [CHR ''a'', CHR 0x0D, CHR ''b'']) = [CHR ''a'', CHR 0x0A, CHR ''b'']"
  by (simp add: attribute_value_def replace_nul_def)

lemma escapeHtml_keeps_quotation_marks:
  "(CHR 0x22 \<in> set (escapeHtml t)) = (CHR 0x22 \<in> set t)"
  by (induction t) auto

text \<open>
  C5 on the script. The text that \<^verbatim>\<open>escapeHtml\<close> returns has no angle bracket, so as
  the content of an element it is read back as the characters it was made from. It
  keeps every quotation mark, and the script also writes it between the quotation marks
  of attribute values: there a title with a quotation mark ends the value and goes on
  as further attributes of the element, here an event handler.
\<close>

theorem escapeHtml_attribute_injection:
  \<open>escapeHtml ''x" onmouseover="alert(1)'' = ''x" onmouseover="alert(1)''
    \<and> suggestion_html 0 (paper ''x" onmouseover="alert(1)'') = join_lines
        ['''',
         ''      <div class="autocomplete-item" data-index="0" data-paper="x" onmouseover="alert(1)">'',
         ''        <div class="autocomplete-item-title">x" onmouseover="alert(1)</div>'',
         ''        <div class="autocomplete-item-meta">'',
         ''          <span class="autocomplete-item-year">N/A</span>'',
         ''          '',
         ''        </div>'',
         ''      </div>'',
         ''    '']
    \<and> data_paper (suggestion_item (paper ''x" onmouseover="alert(1)'')) = ''x''
    \<and> escapeHtml ''<img src=x onerror=alert(1)>'' = ''&lt;img src=x onerror=alert(1)&gt;''\<close>
  by (simp add: suggestion_html_def join_lines_def paper_def text_of_def year_text_def
      truthy_def nat_digits.simps suggestion_item_def attribute_value_def replace_nul_def)


section \<open>Formatting counts\<close>

lemma bit_length_le: "n < 2 ^ k \<Longrightarrow> bit_length n \<le> k"
proof (induction k arbitrary: n)
  case 0
  then show ?case by (simp add: bit_length.simps)
next
  case (Suc k)
  then have "n div 2 < 2 ^ k" by simp
  then have "bit_length (n div 2) \<le> k" by (rule Suc.IH)
  then show ?case by (subst bit_length.simps) simp
qed


lemma round_half_even_close: "\<bar>of_int (round_half_even q) - q\<bar> \<le> 1 / 2"
proof -
  define r where "r = q - of_int \<lfloor>q\<rfloor>"
  have r: "0 \<le> r" "r < 1"
    unfolding r_def by linarith+
  have q: "q = of_int \<lfloor>q\<rfloor> + r"
    by (simp add: r_def)
  have "round_half_even q = (if r < 1 / 2 then \<lfloor>q\<rfloor> else if 1 / 2 < r then \<lfloor>q\<rfloor> + 1
      else if even \<lfloor>q\<rfloor> then \<lfloor>q\<rfloor> else \<lfloor>q\<rfloor> + 1)"
    by (simp add: round_half_even_def Let_def r_def)
  then have "of_int (round_half_even q) - q = - r \<or> of_int (round_half_even q) - q = 1 - r"
    and "r < 1 / 2 \<longrightarrow> of_int (round_half_even q) - q = - r"
    and "1 / 2 < r \<longrightarrow> of_int (round_half_even q) - q = 1 - r"
    using q by (auto split: if_splits)
  then show ?thesis
    using r by (cases "r < 1 / 2"; cases "1 / 2 < r") (auto simp: abs_if)
qed

lemma round_half_even_nonneg: "0 \<le> q \<Longrightarrow> 0 \<le> round_half_even q"
proof -
  assume "0 \<le> q"
  then have "0 \<le> \<lfloor>q\<rfloor>" by simp
  then show ?thesis
    by (auto simp: round_half_even_def Let_def)
qed

lemma double_div_close:
  assumes "bit_length (n div m) \<le> b" and "1 \<le> b" and "b \<le> 53"
  shows "\<bar>double_div n m - of_nat n / of_nat m\<bar> \<le> 1 / 2 ^ (54 - b) \<and> 0 \<le> double_div n m"
proof -
  define e where "e = bit_length (n div m) - 1"
  define q :: rat where "q = of_nat n / of_nat m"
  define p :: rat where "p = 2 ^ (52 - e)"
  have e: "e \<le> 52" and k: "53 - b \<le> 52 - e"
    using assms by (simp_all add: e_def)
  have p0: "0 < p" by (simp add: p_def)
  have "(2::rat) ^ (53 - b) \<le> 2 ^ (52 - e)"
    using k by (intro power_increasing) simp_all
  then have pb: "2 ^ (53 - b) \<le> p" by (simp add: p_def)
  have q0: "0 \<le> q" by (simp add: q_def)
  have dd: "double_div n m = of_int (round_half_even (q * p)) / p"
    unfolding double_div_def Let_def e_def [symmetric] q_def [symmetric]
    using e by (simp add: p_def)
  have "\<bar>of_int (round_half_even (q * p)) - q * p\<bar> \<le> 1 / 2"
    by (rule round_half_even_close)
  then have "\<bar>of_int (round_half_even (q * p)) / p - q\<bar> * p \<le> 1 / 2"
    using p0 by (simp add: abs_mult [symmetric] left_diff_distrib abs_if split: if_splits)
  then have "\<bar>of_int (round_half_even (q * p)) / p - q\<bar> \<le> 1 / 2 / p"
    using p0 by (simp add: pos_le_divide_eq)
  also have "1 / 2 / p \<le> 1 / 2 / 2 ^ (53 - b)"
    using pb p0 by (simp add: frac_le)
  also have "1 / 2 / (2::rat) ^ (53 - b) = 1 / 2 ^ Suc (53 - b)"
    by simp
  also have "Suc (53 - b) = 54 - b"
    using assms by simp
  finally have close: "\<bar>of_int (round_half_even (q * p)) / p - q\<bar> \<le> 1 / 2 ^ (54 - b)" .
  have "0 \<le> round_half_even (q * p)"
    using q0 p0 by (intro round_half_even_nonneg) simp
  then have "0 \<le> (of_int (round_half_even (q * p)) :: rat) / p"
    using p0 by simp
  with close show ?thesis
    by (simp add: dd q_def)
qed

lemma toFixed1_digits:
  assumes "0 \<le> x"
  shows "\<exists>d. toFixed1 x = nat_digits (d div 10) @ ''.'' @ nat_digits (d mod 10)
           \<and> \<bar>of_nat d - 10 * x\<bar> \<le> 1 / 2"
proof -
  define z where "z = \<lfloor>10 * x + 1 / 2\<rfloor>"
  have "0 \<le> 10 * x + 1 / 2" using assms by simp
  then have z0: "0 \<le> z" by (simp add: z_def)
  have "of_int z \<le> 10 * x + 1 / 2" and "10 * x + 1 / 2 < of_int z + 1"
    unfolding z_def by linarith+
  then have "\<bar>of_int z - 10 * x\<bar> \<le> 1 / 2"
    by (simp add: abs_if)
  moreover have "(of_nat (nat z) :: rat) = of_int z"
    using z0 by simp
  ultimately have "\<bar>of_nat (nat z) - 10 * x\<bar> \<le> 1 / 2"
    by simp
  moreover have "toFixed1 x = nat_digits (nat z div 10) @ ''.'' @ nat_digits (nat z mod 10)"
    by (simp add: toFixed1_def Let_def z_def)
  ultimately show ?thesis by blast
qed

lemma nearest_tenth:
  fixes x eps :: rat
  assumes c: "c = 20 * k" "0 < k"
    and eps: "of_nat c * eps < 1"
    and x: "\<bar>x - of_nat n / of_nat c\<bar> \<le> eps"
    and d: "\<bar>of_nat d - 10 * x\<bar> \<le> 1 / 2"
  shows "\<bar>of_nat d / 10 - of_nat n / of_nat c\<bar> \<le> (1 / 20 :: rat)"
proof -
  define z :: int where "z = int (2 * k * d) - int n"
  have c0: "(0::rat) < of_nat c" using c by simp
  have zq: "(of_int z :: rat) = of_nat c * (of_nat d / 10 - of_nat n / of_nat c)"
    using c by (simp add: z_def right_diff_distrib)
  have "\<bar>of_nat d / 10 - of_nat n / of_nat c\<bar> \<le> \<bar>of_nat d / 10 - x\<bar> + \<bar>x - of_nat n / of_nat c\<bar>"
    by simp
  moreover have "\<bar>of_nat d / 10 - x\<bar> \<le> 1 / 20"
    using d by (simp add: abs_if split: if_splits)
  ultimately have "\<bar>of_nat d / 10 - of_nat n / of_nat c\<bar> \<le> 1 / 20 + eps"
    using x by linarith
  then have "of_nat c * \<bar>of_nat d / 10 - of_nat n / of_nat c\<bar> \<le> of_nat c * (1 / 20 + eps)"
    using c0 by (simp only: mult_le_cancel_left_pos)
  also have "of_nat c * (1 / 20 + eps) = of_nat k + of_nat c * eps"
    using c by (simp add: distrib_left)
  also have "\<dots> < of_nat k + 1"
    using eps by simp
  finally have "\<bar>of_int z :: rat\<bar> < of_int (int k + 1)"
    using c0 by (simp add: zq abs_mult)
  then have "\<bar>z\<bar> < int k + 1"
    by (simp only: of_int_abs [symmetric] of_int_less_iff)
  then have "\<bar>z\<bar> \<le> int k" by simp
  then have "\<bar>of_int z :: rat\<bar> \<le> of_int (int k)"
    by (simp only: of_int_abs [symmetric] of_int_le_iff)
  then have "(of_nat c :: rat) * \<bar>of_nat d / 10 - of_nat n / of_nat c\<bar> \<le> of_nat c * (1 / 20)"
    using c c0 by (simp add: zq abs_mult)
  then show ?thesis
    using c0 by (simp only: mult_le_cancel_left_pos)
qed

lemma thousands_digits:
  assumes "1000 \<le> n" and "n < 1000000"
  shows "\<exists>d. toFixed1 (double_div n 1000) = nat_digits (d div 10) @ ''.'' @ nat_digits (d mod 10)
           \<and> \<bar>of_nat d / 10 - of_nat n / 1000\<bar> \<le> (1 / 20 :: rat)"
proof -
  have "n div 1000 < 2 ^ 10" using assms by simp
  then have "bit_length (n div 1000) \<le> 10" by (rule bit_length_le)
  then have close: "\<bar>double_div n 1000 - of_nat n / of_nat 1000\<bar> \<le> 1 / 2 ^ (54 - 10)"
    and pos: "0 \<le> double_div n 1000"
    using double_div_close [of n 1000 10] by simp_all
  obtain d where d: "toFixed1 (double_div n 1000)
        = nat_digits (d div 10) @ ''.'' @ nat_digits (d mod 10)"
      "\<bar>of_nat d - 10 * double_div n 1000\<bar> \<le> 1 / 2"
    using toFixed1_digits [OF pos] by blast
  have "\<bar>of_nat d / 10 - of_nat n / of_nat 1000\<bar> \<le> (1 / 20 :: rat)"
    using close d(2) by (intro nearest_tenth [where k = 50 and eps = "1 / 2 ^ (54 - 10)"]) simp_all
  with d(1) show ?thesis by auto
qed

lemma millions_digits:
  assumes "1000000 \<le> n" and "n \<le> 2 ^ 53"
  shows "\<exists>d. toFixed1 (double_div n 1000000)
             = nat_digits (d div 10) @ ''.'' @ nat_digits (d mod 10)
           \<and> \<bar>of_nat d / 10 - of_nat n / 1000000\<bar> \<le> (1 / 20 :: rat)"
proof -
  have "n div 1000000 \<le> 2 ^ 53 div 1000000"
    using assms(2) by (rule div_le_mono)
  also have "(2::nat) ^ 53 div 1000000 < 2 ^ 34" by simp
  finally have "bit_length (n div 1000000) \<le> 34" by (rule bit_length_le)
  then have close: "\<bar>double_div n 1000000 - of_nat n / of_nat 1000000\<bar> \<le> 1 / 2 ^ (54 - 34)"
    and pos: "0 \<le> double_div n 1000000"
    using double_div_close [of n 1000000 34] by simp_all
  obtain d where d: "toFixed1 (double_div n 1000000)
        = nat_digits (d div 10) @ ''.'' @ nat_digits (d mod 10)"
      "\<bar>of_nat d - 10 * double_div n 1000000\<bar> \<le> 1 / 2"
    using toFixed1_digits [OF pos] by blast
  have "\<bar>of_nat d / 10 - of_nat n / of_nat 1000000\<bar> \<le> (1 / 20 :: rat)"
    using close d(2)
    by (intro nearest_tenth [where k = 50000 and eps = "1 / 2 ^ (54 - 34)"]) simp_all
  with d(1) show ?thesis by auto
qed









lemma digit_value: "k < 10 \<Longrightarrow> of_char (''0123456789'' ! k) = (48 + k :: nat)"
proof -
  assume "k < 10"
  then have "k = 0 \<or> k = 1 \<or> k = 2 \<or> k = 3 \<or> k = 4 \<or> k = 5 \<or> k = 6 \<or> k = 7
      \<or> k = 8 \<or> k = 9"
    by presburger
  then show ?thesis by auto
qed

lemma nat_digits_value:
  "foldl (\<lambda>a c. 10 * a + (of_char c - 48)) 0 (nat_digits n) = n"
proof (induction n rule: nat_digits.induct)
  case (1 n)
  show ?case
  proof (cases "n < 10")
    case True
    then show ?thesis
      by (subst nat_digits.simps) (simp add: digit_value)
  next
    case False
    then have "foldl (\<lambda>a c. 10 * a + (of_char c - 48)) 0 (nat_digits (n div 10)) = n div 10"
      using 1 by simp
    then show ?thesis
      using False by (subst nat_digits.simps) (simp add: digit_value)
  qed
qed










end
